theory Spec2Isabelle
  imports Complex_Main
begin

section \<open>The annotation canvas (src/components/Canvas.jsx)\<close>

text \<open>
  The component keeps its state in React state cells. A handler reads the cells of the
  render it was created in and asks for new values; the model passes the state in and
  returns the new one. JavaScript numbers are taken as real numbers (no rounding, no NaN,
  no infinity); \<open>Date.now()\<close> is a natural number of milliseconds.
\<close>

subsection \<open>Data\<close>

text \<open>
  A rectangle object \<open>{ id, x, y, width, height, color }\<close>. The fields \<open>id\<close>, \<open>x\<close>
  and \<open>y\<close> are called \<open>rid\<close>, \<open>xpos\<close> and \<open>ypos\<close> here.
\<close>

record rect =
  rid :: string
  xpos :: real
  ypos :: real
  width :: real
  height :: real
  color :: string

text \<open>The pointer position \<open>{ x, y }\<close> of \<open>stageRef.current.getPointerPosition()\<close>.\<close>

record point =
  px :: real
  py :: real

text \<open>
  The state cells of \<open>Canvas\<close>. The elements of \<open>rectangles\<close> are of type \<open>'r\<close>: the
  drawing and editing handlers read the fields of rectangle objects and work on
  \<open>rect canvas\<close>; the file handlers move whole arrays and look at no element.
\<close>

record 'r canvas =
  rectangles :: "'r list"
  selectedId :: "string option"
  isDrawing :: bool
  startPoint :: "point option"
  currentRect :: "rect option"
  loading :: bool
  error :: string
  annotationId :: "string option"
  autoSave :: bool

text \<open>The state of the first render: the initial values of the \<open>useState\<close> calls.\<close>

definition initial :: "'r canvas" where
  "initial = \<lparr>rectangles = [], selectedId = None, isDrawing = False, startPoint = None,
     currentRect = None, loading = True, error = [], annotationId = None, autoSave = False\<rparr>"

text \<open>
  A condition \<open>if (v)\<close> on a cell holding a string or \<open>null\<close>: \<open>null\<close> and the empty
  string are falsy.
\<close>

definition truthy :: "string option \<Rightarrow> bool" where
  "truthy v = (case v of None \<Rightarrow> False | Some t \<Rightarrow> t \<noteq> [])"

subsection \<open>Number to string\<close>

text \<open>
  \<open>Number.prototype.toString(16)\<close> and the decimal form of a number in a template
  literal, on non-negative integers: no leading zeros, lowercase digits. JavaScript takes
  a radix from 2 to 36; the model is used at 10 and 16.
\<close>

definition digit_char :: "nat \<Rightarrow> char" where
  "digit_char d = ''0123456789abcdef'' ! d"

function toString_radix :: "nat \<Rightarrow> nat \<Rightarrow> string" where
  "toString_radix b n =
     (if n < b \<or> b < 2 then [digit_char n]
      else toString_radix b (n div b) @ [digit_char (n mod b)])"
  by pat_completeness auto
termination
  by (relation "measure snd") auto

declare toString_radix.simps [simp del]

definition toString16 :: "nat \<Rightarrow> string" where
  "toString16 n = toString_radix 16 n"

definition toString10 :: "nat \<Rightarrow> string" where
  "toString10 n = toString_radix 10 n"

subsection \<open>Drawing: pointer down, move, up\<close>

text \<open>
  \<open>handleMouseDown\<close>: \<open>onStage\<close> is \<open>e.target === stageRef.current\<close>, \<open>pos\<close> the pointer
  position, \<open>now\<close> the value of \<open>Date.now()\<close> and \<open>rnd\<close> the value of \<open>Math.random()\<close>.
\<close>

definition handleMouseDown :: "bool \<Rightarrow> point \<Rightarrow> nat \<Rightarrow> real \<Rightarrow> rect canvas \<Rightarrow> rect canvas" where
  "handleMouseDown onStage pos now rnd s =
     (if \<not> isDrawing s \<or> \<not> onStage then s
      else s\<lparr>startPoint := Some pos,
             currentRect := Some \<lparr>rid = ''rect-'' @ toString10 now,
               xpos = px pos, ypos = py pos, width = 0, height = 0,
               color = CHR ''#'' # toString16 (nat \<lfloor>rnd * 16777215\<rfloor>)\<rparr>\<rparr>)"

definition handleMouseMove :: "point \<Rightarrow> rect canvas \<Rightarrow> rect canvas" where
  "handleMouseMove pos s =
     (if \<not> isDrawing s then s
      else case (startPoint s, currentRect s) of
        (Some sp, Some cr) \<Rightarrow>
          s\<lparr>currentRect := Some (cr\<lparr>width := px pos - px sp, height := py pos - py sp\<rparr>)\<rparr>
      | _ \<Rightarrow> s)"

text \<open>The object \<open>finalRect\<close> of \<open>handleMouseUp\<close>.\<close>

definition finalRect :: "rect \<Rightarrow> rect" where
  "finalRect cr =
     cr\<lparr>xpos := (if width cr > 0 then xpos cr else xpos cr + width cr),
        ypos := (if height cr > 0 then ypos cr else ypos cr + height cr),
        width := \<bar>width cr\<bar>,
        height := \<bar>height cr\<bar>\<rparr>"

definition handleMouseUp :: "rect canvas \<Rightarrow> rect canvas" where
  "handleMouseUp s =
     (case currentRect s of
        Some cr \<Rightarrow>
          (if \<bar>width cr\<bar> > 5 \<and> \<bar>height cr\<bar> > 5
           then s\<lparr>rectangles := rectangles s @ [finalRect cr]\<rparr>
           else s)
      | None \<Rightarrow> s)
     \<lparr>startPoint := None, currentRect := None\<rparr>"

text \<open>
  A drawing gesture on the canvas background: pointer down at \<open>p\<close>, pointer moves
  through the points \<open>qs\<close>, pointer up.
\<close>

definition gesture :: "point \<Rightarrow> point list \<Rightarrow> nat \<Rightarrow> real \<Rightarrow> rect canvas \<Rightarrow> rect canvas" where
  "gesture p qs now rnd s =
     handleMouseUp (foldl (\<lambda>t q. handleMouseMove q t) (handleMouseDown True p now rnd s) qs)"

subsection \<open>Moving and resizing\<close>

text \<open>
  The Konva node \<open>e.target\<close> of a drag or transform event: its position and scale.
  \<open>node.scaleX(1)\<close> writes the node; the handler returns the node it leaves behind.
\<close>

record node =
  node_x :: real
  node_y :: real
  scaleX :: real
  scaleY :: real

definition handleDragEnd :: "node \<Rightarrow> string \<Rightarrow> rect canvas \<Rightarrow> rect canvas" where
  "handleDragEnd target i s =
     s\<lparr>rectangles :=
         map (\<lambda>r. if rid r = i then r\<lparr>xpos := node_x target, ypos := node_y target\<rparr> else r)
           (rectangles s)\<rparr>"

definition handleTransformEnd :: "node \<Rightarrow> string \<Rightarrow> rect canvas \<Rightarrow> node \<times> rect canvas" where
  "handleTransformEnd target i s =
     (let sx = scaleX target;
          sy = scaleY target;
          nd = target\<lparr>scaleX := 1, scaleY := 1\<rparr>
      in (nd,
          s\<lparr>rectangles :=
              map (\<lambda>r. if rid r = i
                       then r\<lparr>xpos := node_x nd, ypos := node_y nd,
                              width := max 5 (width r * sx),
                              height := max 5 (height r * sy)\<rparr>
                       else r)
                (rectangles s)\<rparr>))"

text \<open>The box \<open>{ x, y, width, height, rotation }\<close> the Transformer passes to \<open>boundBoxFunc\<close>.\<close>

record box =
  box_x :: real
  box_y :: real
  box_width :: real
  box_height :: real
  box_rotation :: real

definition boundBoxFunc :: "box \<Rightarrow> box \<Rightarrow> box" where
  "boundBoxFunc oldBox newBox =
     (if box_width newBox < 5 \<or> box_height newBox < 5 then oldBox else newBox)"

subsection \<open>Selection, delete, clear\<close>

text \<open>\<open>onClick\<close> and \<open>onTap\<close> of the rendered rectangle \<open>r\<close>: \<open>setSelectedId(rect.id)\<close>.\<close>

definition onClick :: "rect \<Rightarrow> rect canvas \<Rightarrow> rect canvas" where
  "onClick r s = s\<lparr>selectedId := Some (rid r)\<rparr>"

definition deleteSelected :: "rect canvas \<Rightarrow> rect canvas" where
  "deleteSelected s =
     (if truthy (selectedId s)
      then s\<lparr>rectangles := filter (\<lambda>r. Some (rid r) \<noteq> selectedId s) (rectangles s),
             selectedId := None\<rparr>
      else s)"

definition clearAll :: "'r canvas \<Rightarrow> 'r canvas" where
  "clearAll s = s\<lparr>rectangles := [], selectedId := None\<rparr>"

definition getSelectedRect :: "rect canvas \<Rightarrow> rect option" where
  "getSelectedRect s = find (\<lambda>r. Some (rid r) = selectedId s) (rectangles s)"

subsection \<open>File import and export\<close>

text \<open>
  What \<open>JSON.parse(event.target.result)\<close> gives, as far as \<open>loadFromFile\<close> looks at
  it: an exception, a value for which \<open>Array.isArray\<close> is false, or an array with its
  elements. \<open>JSON.parse\<close> and \<open>JSON.stringify\<close> belong to the JavaScript runtime and
  are parameters of the handlers.
\<close>

datatype 'r parse_result = SyntaxError | NonArray | Array "'r list"

text \<open>Values an imported array can hold besides rectangle objects.\<close>

datatype json = JNull | JBool bool | JNumber real | JString string
  | JArray "json list" | JObject "(string \<times> json) list"

text \<open>
  \<open>loadFromFile\<close>: \<open>file\<close> is the text of \<open>e.target.files[0]\<close>, \<open>None\<close> when no file
  was chosen; the body is the \<open>onload\<close> callback of the reader.
\<close>

definition loadFromFile :: "(string \<Rightarrow> 'r parse_result) \<Rightarrow> string option \<Rightarrow> 'r canvas \<Rightarrow> 'r canvas" where
  "loadFromFile JSON_parse file s =
     (case file of
        None \<Rightarrow> s
      | Some result \<Rightarrow>
          (case JSON_parse result of
             SyntaxError \<Rightarrow> s\<lparr>error := ''Invalid file format''\<rparr>
           | NonArray \<Rightarrow> s
           | Array data \<Rightarrow> s\<lparr>rectangles := data, selectedId := None\<rparr>))"


subsection \<open>Loading and saving\<close>

text \<open>
  The requests to the persistence service, each with the value of
  \<open>localStorage.getItem('token')\<close> in its header, and the outcome of a request: the
  promise is rejected, or it resolves with the \<open>_id\<close> of \<open>response.data\<close>.
\<close>

datatype 'r request = Put string "string option" "'r list" | Post "string option" "'r list"

datatype response = Rejected | Resolved string

definition payload :: "'r request \<Rightarrow> 'r list" where
  "payload req = (case req of Put i tok data \<Rightarrow> data | Post tok data \<Rightarrow> data)"

text \<open>
  \<open>fetchAnnotations\<close>, from the answer of the GET on: \<open>None\<close> is a rejected promise,
  \<open>Some ds\<close> the list \<open>response.data\<close> of pairs \<open>(_id, rectangles)\<close>.
\<close>

definition fetchAnnotations :: "(string \<times> 'r list) list option \<Rightarrow> 'r canvas \<Rightarrow> 'r canvas" where
  "fetchAnnotations answer s =
     (case answer of
        None \<Rightarrow> s\<lparr>error := ''Failed to load annotations''\<rparr>
      | Some ds \<Rightarrow>
          (if length ds > 0
           then s\<lparr>rectangles := snd (last ds), annotationId := Some (fst (last ds))\<rparr>
           else s))
     \<lparr>loading := False\<rparr>"

text \<open>
  \<open>saveAnnotations\<close> in two parts, before and after the \<open>await\<close>: the request it
  sends, from the cells of the render the call was made in, and the updates it asks for
  when the request has settled, applied to the state of that moment.
\<close>

definition saveAnnotations_request :: "string option \<Rightarrow> 'r canvas \<Rightarrow> 'r request" where
  "saveAnnotations_request token s =
     (case annotationId s of
        Some i \<Rightarrow> if i \<noteq> [] then Put i token (rectangles s) else Post token (rectangles s)
      | None \<Rightarrow> Post token (rectangles s))"

definition saveAnnotations_settled :: "'r request \<Rightarrow> response \<Rightarrow> 'r canvas \<Rightarrow> 'r canvas" where
  "saveAnnotations_settled req resp s =
     (case resp of
        Rejected \<Rightarrow> s\<lparr>error := ''Failed to save annotations''\<rparr>
      | Resolved new_id \<Rightarrow>
          (case req of
             Put i tok data \<Rightarrow> s\<lparr>error := []\<rparr>
           | Post tok data \<Rightarrow> s\<lparr>annotationId := Some new_id, error := []\<rparr>))"

text \<open>A call of \<open>saveAnnotations\<close> that settles before anything else happens.\<close>

definition saveAnnotations :: "('r request \<Rightarrow> response) \<Rightarrow> string option \<Rightarrow> 'r canvas \<Rightarrow> 'r request \<times> 'r canvas" where
  "saveAnnotations service token s =
     (let req = saveAnnotations_request token s
      in (req, saveAnnotations_settled req (service req) s))"

text \<open>
  Saves one after the other, the rectangle list edited to \<open>fst e\<close> before each and the
  service answering \<open>snd e\<close>; the requests sent, in order, and the last state.
\<close>

fun save_all :: "string option \<Rightarrow> ('r list \<times> response) list \<Rightarrow> 'r canvas \<Rightarrow> 'r request list \<times> 'r canvas" where
  "save_all token [] s = ([], s)"
| "save_all token (e # es) s =
     (let (req, s') = saveAnnotations (\<lambda>r. snd e) token (s\<lparr>rectangles := fst e\<rparr>);
          (reqs, s'') = save_all token es s'
      in (req # reqs, s''))"

subsection \<open>Runs of the editor\<close>

text \<open>
  What can happen to the state once the component has mounted and \<open>fetchAnnotations\<close>
  has settled (until then only the loading message is rendered): the toolbar buttons,
  the pointer events of the stage and of the rendered rectangles, the file input, and a
  save that settles. \<open>Click k\<close> is a click or tap on the \<open>k\<close>-th rendered rectangle.
\<close>

datatype action =
    ToggleDrawing
  | MouseDown bool point nat real
  | MouseMove point
  | MouseUp
  | Click nat
  | DragEnd node string
  | TransformEnd node string
  | DeleteSelected
  | ClearAll
  | LoadFromFile "string \<Rightarrow> rect parse_result" "string option"
  | SetAutoSave bool
  | SaveSettled "rect request" response

fun perform :: "action \<Rightarrow> rect canvas \<Rightarrow> rect canvas" where
  "perform ToggleDrawing s = s\<lparr>isDrawing := \<not> isDrawing s\<rparr>"
| "perform (MouseDown onStage pos now rnd) s = handleMouseDown onStage pos now rnd s"
| "perform (MouseMove pos) s = handleMouseMove pos s"
| "perform MouseUp s = handleMouseUp s"
| "perform (Click k) s = (if k < length (rectangles s) then onClick (rectangles s ! k) s else s)"
| "perform (DragEnd target i) s = handleDragEnd target i s"
| "perform (TransformEnd target i) s = snd (handleTransformEnd target i s)"
| "perform DeleteSelected s = deleteSelected s"
| "perform ClearAll s = clearAll s"
| "perform (LoadFromFile JSON_parse file) s = loadFromFile JSON_parse file s"
| "perform (SetAutoSave b) s = s\<lparr>autoSave := b\<rparr>"
| "perform (SaveSettled req resp) s = saveAnnotations_settled req resp s"

definition run :: "action list \<Rightarrow> rect canvas \<Rightarrow> rect canvas" where
  "run acts s = foldl (\<lambda>t a. perform a t) s acts"

text \<open>The selection is \<open>null\<close> or the id of a rectangle of the list.\<close>

definition selection_ok :: "rect canvas \<Rightarrow> bool" where
  "selection_ok s = (case selectedId s of None \<Rightarrow> True | Some i \<Rightarrow> i \<in> set (map rid (rectangles s)))"

subsection \<open>Colour strings\<close>

text \<open>A hex RGB string: \<open>#\<close> and exactly six hexadecimal digits.\<close>

definition is_hex_digit :: "char \<Rightarrow> bool" where
  "is_hex_digit c = (c \<in> set ''0123456789abcdefABCDEF'')"

definition valid_hex_rgb :: "string \<Rightarrow> bool" where
  "valid_hex_rgb t =
     (case t of [] \<Rightarrow> False | c # ds \<Rightarrow> c = CHR ''#'' \<and> length ds = 6 \<and> list_all is_hex_digit ds)"

subsection \<open>The auto-save timer\<close>

text \<open>
  The effect \<open>useEffect(..., [rectangles, autoSave])\<close> and the timers of the page. React
  runs an effect after the first render and after every render in which one of its
  dependencies has changed, and before running it again it calls the cleanup function the
  last run returned. A timer set with \<open>setTimeout\<close> is a handle, the time it is due and
  its callback; the callback here is \<open>saveAnnotations\<close> of the render the effect ran in,
  kept as the state cells of that render. \<open>cleanup\<close> is the handle the cleanup function
  of the last run clears, \<open>None\<close> when that run returned nothing. \<open>sent\<close> lists the
  saves started, each with its time. Times are milliseconds. An event, the render it
  causes and the effect run after that render are one step: no timer calls back in
  between.
\<close>

record 'r sys =
  ui :: "'r canvas"
  token :: "string option"
  clock :: nat
  timers :: "(nat \<times> nat \<times> 'r canvas) list"
  cleanup :: "nat option"
  fresh :: nat
  sent :: "(nat \<times> 'r request) list"

definition mounted :: "string option \<Rightarrow> 'r sys" where
  "mounted tok = \<lparr>ui = initial, token = tok, clock = 0, timers = [], cleanup = None,
     fresh = 0, sent = []\<rparr>"

definition clearTimeout :: "nat \<Rightarrow> 'r sys \<Rightarrow> 'r sys" where
  "clearTimeout h s = s\<lparr>timers := filter (\<lambda>(h', due, c). h' \<noteq> h) (timers s)\<rparr>"

definition setTimeout :: "nat \<Rightarrow> 'r sys \<Rightarrow> 'r sys" where
  "setTimeout delay s =
     s\<lparr>timers := timers s @ [(fresh s, clock s + delay, ui s)], fresh := Suc (fresh s)\<rparr>"

text \<open>One run of the effect, after the cleanup of the run before.\<close>

definition autoSaveEffect :: "'r sys \<Rightarrow> 'r sys" where
  "autoSaveEffect s =
     (let s1 = (case cleanup s of None \<Rightarrow> s | Some h \<Rightarrow> clearTimeout h s)
      in if autoSave (ui s1) \<and> length (rectangles (ui s1)) > 0
         then (setTimeout 2000 s1)\<lparr>cleanup := Some (fresh s1)\<rparr>
         else s1\<lparr>cleanup := None\<rparr>)"

text \<open>
  \<open>Mutate f\<close>: a handler that calls \<open>setRectangles\<close>; every such call in the component
  passes a new array, so the effect runs again. \<open>Update f\<close>: a handler or a settled
  request that sets neither \<open>rectangles\<close> nor \<open>autoSave\<close>. \<open>CheckAutoSave b\<close>: the
  checkbox calls \<open>setAutoSave(b)\<close>; setting a cell to the value it has renders nothing.
  \<open>ClickSave\<close>: the button Save to Database, disabled while
  \<open>rectangles.length === 0\<close>. \<open>Elapse d\<close>: \<open>d\<close> milliseconds pass and the timers due
  by then call back, the earliest first.
\<close>

datatype 'r event =
    Mutate "'r canvas \<Rightarrow> 'r canvas"
  | Update "'r canvas \<Rightarrow> 'r canvas"
  | CheckAutoSave bool
  | ClickSave
  | Elapse nat

definition is_due :: "nat \<Rightarrow> nat \<times> nat \<times> 'r canvas \<Rightarrow> bool" where
  "is_due t e = (fst (snd e) \<le> t)"

fun step :: "'r event \<Rightarrow> 'r sys \<Rightarrow> 'r sys" where
  "step (Mutate f) s = autoSaveEffect (s\<lparr>ui := (f (ui s))\<lparr>autoSave := autoSave (ui s)\<rparr>\<rparr>)"
| "step (Update f) s =
     s\<lparr>ui := (f (ui s))\<lparr>rectangles := rectangles (ui s), autoSave := autoSave (ui s)\<rparr>\<rparr>"
| "step (CheckAutoSave b) s =
     (if b = autoSave (ui s) then s else autoSaveEffect (s\<lparr>ui := (ui s)\<lparr>autoSave := b\<rparr>\<rparr>))"
| "step ClickSave s =
     (if length (rectangles (ui s)) = 0 then s
      else s\<lparr>sent := sent s @ [(clock s, saveAnnotations_request (token s) (ui s))]\<rparr>)"
| "step (Elapse d) s =
     s\<lparr>clock := clock s + d,
       timers := filter (\<lambda>e. \<not> is_due (clock s + d) e) (timers s),
       sent := sent s @
         map (\<lambda>(h, due, c). (due, saveAnnotations_request (token s) c))
           (sort_key (\<lambda>e. fst (snd e)) (filter (is_due (clock s + d)) (timers s)))\<rparr>"

definition steps :: "'r event list \<Rightarrow> 'r sys \<Rightarrow> 'r sys" where
  "steps evs s = foldl (\<lambda>t e. step e t) s evs"

text \<open>
  What holds of the timers after every event: at most one is pending, and a pending one
  is the one the cleanup of the last effect run will clear, auto-save is on, and its
  callback holds the rectangle list of the current state, which is not empty.
\<close>

definition timer_inv :: "'r sys \<Rightarrow> bool" where
  "timer_inv s =
     (length (timers s) \<le> 1 \<and>
      (\<forall>e \<in> set (timers s).
          cleanup s = Some (fst e) \<and> autoSave (ui s) \<and>
          rectangles (snd (snd e)) = rectangles (ui s) \<and> rectangles (ui s) \<noteq> []))"

definition sent_inv :: "'r sys \<Rightarrow> bool" where
  "sent_inv s = (\<forall>e \<in> set (sent s). payload (snd e) \<noteq> [])"

text \<open>Events of a quiet period: time passing and updates of other cells.\<close>

fun is_quiet :: "'r event \<Rightarrow> bool" where
  "is_quiet (Elapse d) = True"
| "is_quiet (Update f) = True"
| "is_quiet e = False"

text \<open>The time that passes in a list of events.\<close>

fun elapsed :: "'r event list \<Rightarrow> nat" where
  "elapsed [] = 0"
| "elapsed (Elapse d # evs) = d + elapsed evs"
| "elapsed (e # evs) = elapsed evs"

text \<open>Events that leave the rectangle list alone.\<close>

fun no_mutation :: "'r event \<Rightarrow> bool" where
  "no_mutation (Mutate f) = False"
| "no_mutation e = True"

section \<open>Drawing\<close>

subsection \<open>A gesture ends in the rectangle its last pointer position gives\<close>

lemma foldl_moves:
  "isDrawing t \<Longrightarrow> startPoint t = Some p \<Longrightarrow> currentRect t = Some cr \<Longrightarrow>
   foldl (\<lambda>t q. handleMouseMove q t) t (qs @ [q]) =
     t\<lparr>currentRect := Some (cr\<lparr>width := px q - px p, height := py q - py p\<rparr>)\<rparr>"
proof (induction qs arbitrary: t cr)
  case Nil
  then show ?case by (simp add: handleMouseMove_def)
next
  case (Cons a qs)
  let ?t = "handleMouseMove a t"
  have t': "?t = t\<lparr>currentRect := Some (cr\<lparr>width := px a - px p, height := py a - py p\<rparr>)\<rparr>"
    using Cons.prems by (simp add: handleMouseMove_def)
  have "foldl (\<lambda>t q. handleMouseMove q t) ?t (qs @ [q]) =
     ?t\<lparr>currentRect := Some ((cr\<lparr>width := px a - px p, height := py a - py p\<rparr>)
            \<lparr>width := px q - px p, height := py q - py p\<rparr>)\<rparr>"
    by (rule Cons.IH) (simp_all add: t' Cons.prems)
  then show ?case by (simp add: t')
qed

lemma gesture_eq:
  assumes "isDrawing s"
  shows "gesture p (qs @ [q]) now rnd s =
     handleMouseUp (s\<lparr>startPoint := Some p,
        currentRect := Some \<lparr>rid = ''rect-'' @ toString10 now,
               xpos = px p, ypos = py p, width = px q - px p, height = py q - py p,
               color = CHR ''#'' # toString16 (nat \<lfloor>rnd * 16777215\<rfloor>)\<rparr>\<rparr>)"
proof -
  let ?d = "handleMouseDown True p now rnd s"
  let ?r0 = "\<lparr>rid = ''rect-'' @ toString10 now,
               xpos = px p, ypos = py p, width = 0, height = 0,
               color = CHR ''#'' # toString16 (nat \<lfloor>rnd * 16777215\<rfloor>)\<rparr>"
  have d: "?d = s\<lparr>startPoint := Some p, currentRect := Some ?r0\<rparr>"
    using assms by (simp add: handleMouseDown_def)
  have "foldl (\<lambda>t q. handleMouseMove q t) ?d (qs @ [q]) =
     ?d\<lparr>currentRect := Some (?r0\<lparr>width := px q - px p, height := py q - py p\<rparr>)\<rparr>"
    by (rule foldl_moves) (simp_all add: d assms)
  then show ?thesis
    unfolding gesture_def by (simp add: d)
qed

lemma gesture_commit:
  assumes "isDrawing s"
  shows "rectangles (gesture p (qs @ [q]) now rnd s) =
     (if \<bar>px q - px p\<bar> > 5 \<and> \<bar>py q - py p\<bar> > 5
      then rectangles s @ [\<lparr>rid = ''rect-'' @ toString10 now,
               xpos = min (px p) (px q), ypos = min (py p) (py q),
               width = \<bar>px q - px p\<bar>, height = \<bar>py q - py p\<bar>,
               color = CHR ''#'' # toString16 (nat \<lfloor>rnd * 16777215\<rfloor>)\<rparr>]
      else rectangles s)"
  by (simp add: gesture_eq[OF assms] handleMouseUp_def finalRect_def min_def)

subsection \<open>The size threshold\<close>

text \<open>
  C1, as stated, fails: the test of \<open>handleMouseUp\<close> is on the absolute values of the
  signed deltas. A drag from (100,100) to (40,60) leaves a provisional rectangle of
  width -60 and height -40, neither above 5, and pointer-up appends it.
\<close>

theorem C1_signed_check_counterexample:
  "currentRect (handleMouseMove \<lparr>px = 40, py = 60\<rparr>
      (handleMouseDown True \<lparr>px = 100, py = 100\<rparr> 1000 (1/2) (initial\<lparr>isDrawing := True\<rparr>)))
     = Some \<lparr>rid = ''rect-1000'', xpos = 100, ypos = 100, width = - 60, height = - 40,
         color = ''#7fffff''\<rparr>
   \<and> \<not> ((- 60 :: real) > 5 \<and> (- 40 :: real) > 5)
   \<and> rectangles (handleMouseUp (handleMouseMove \<lparr>px = 40, py = 60\<rparr>
      (handleMouseDown True \<lparr>px = 100, py = 100\<rparr> 1000 (1/2) (initial\<lparr>isDrawing := True\<rparr>))))
     = [\<lparr>rid = ''rect-1000'', xpos = 40, ypos = 60, width = 60, height = 40,
         color = ''#7fffff''\<rparr>]"
  by (simp add: handleMouseUp_def handleMouseMove_def handleMouseDown_def initial_def
      finalRect_def toString10_def toString16_def toString_radix.simps digit_char_def)

text \<open>
  C1, amended: pointer-up clears the provisional rectangle and the start point in every
  case; it appends the normalized provisional rectangle if and only if the absolute
  values of its signed width and height both exceed 5, and leaves the list as it is
  otherwise. In drawing mode a gesture that ends 3 units right and 3 units down of its
  start commits nothing, and one that ends 6 units right and 6 units down commits exactly
  one rectangle, of width 6 and height 6.
\<close>

theorem C1_pointer_up_commit:
  "currentRect (handleMouseUp s) = None \<and> startPoint (handleMouseUp s) = None \<and>
   rectangles (handleMouseUp s) =
     (case currentRect s of
        None \<Rightarrow> rectangles s
      | Some cr \<Rightarrow>
          if \<bar>width cr\<bar> > 5 \<and> \<bar>height cr\<bar> > 5 then rectangles s @ [finalRect cr]
          else rectangles s) \<and>
   (isDrawing s \<longrightarrow>
      rectangles (gesture p (qs @ [\<lparr>px = px p + 3, py = py p + 3\<rparr>]) now rnd s) = rectangles s \<and>
      (\<exists>r. rectangles (gesture p (qs @ [\<lparr>px = px p + 6, py = py p + 6\<rparr>]) now rnd s)
               = rectangles s @ [r] \<and> width r = 6 \<and> height r = 6))"
  by (auto simp: gesture_commit handleMouseUp_def split: option.splits)

theorem C1_pointer_up_commit_witness:
  "rectangles (gesture \<lparr>px = 10, py = 10\<rparr> [\<lparr>px = 13, py = 13\<rparr>] 1000 (1/2)
      (initial\<lparr>isDrawing := True\<rparr>)) = [] \<and>
   length (rectangles (gesture \<lparr>px = 10, py = 10\<rparr> [\<lparr>px = 16, py = 16\<rparr>] 1000 (1/2)
      (initial\<lparr>isDrawing := True\<rparr>))) = 1"
proof -
  have d: "isDrawing (initial\<lparr>isDrawing := True\<rparr> :: rect canvas)" by simp
  show ?thesis
    using d C1_pointer_up_commit [of "initial\<lparr>isDrawing := True\<rparr>" "\<lparr>px = 10, py = 10\<rparr>" "[]" 1000 "1/2"]
    by (auto simp: initial_def)
qed

subsection \<open>Normalization\<close>

text \<open>
  C2: when pointer-up commits a provisional rectangle, the committed rectangle has its
  corner at the smaller of the two x and of the two y coordinates and the absolute values
  of the signed width and height as its size; the rectangle a gesture from \<open>p\<close> to \<open>q\<close>
  commits spans the two points. The drag from (100,100) to (40,60) is the witness.
\<close>

theorem C2_normalization:
  "(currentRect s = Some cr \<and> \<bar>width cr\<bar> > 5 \<and> \<bar>height cr\<bar> > 5 \<longrightarrow>
      rectangles (handleMouseUp s) =
        rectangles s @ [cr\<lparr>xpos := min (xpos cr) (xpos cr + width cr),
                           ypos := min (ypos cr) (ypos cr + height cr),
                           width := \<bar>width cr\<bar>, height := \<bar>height cr\<bar>\<rparr>]) \<and>
   (isDrawing s \<and> \<bar>px q - px p\<bar> > 5 \<and> \<bar>py q - py p\<bar> > 5 \<longrightarrow>
      rectangles (gesture p (qs @ [q]) now rnd s) =
        rectangles s @ [\<lparr>rid = ''rect-'' @ toString10 now,
               xpos = min (px p) (px q), ypos = min (py p) (py q),
               width = \<bar>px q - px p\<bar>, height = \<bar>py q - py p\<bar>,
               color = CHR ''#'' # toString16 (nat \<lfloor>rnd * 16777215\<rfloor>)\<rparr>])"
  by (simp add: gesture_commit handleMouseUp_def finalRect_def min_def)

theorem C2_normalization_witness:
  "rectangles (handleMouseUp
      ((initial\<lparr>isDrawing := True, startPoint := Some \<lparr>px = 100, py = 100\<rparr>,
         currentRect := Some \<lparr>rid = ''rect-7'', xpos = 100, ypos = 100, width = - 60,
           height = - 40, color = ''#0000ff''\<rparr>\<rparr>) :: rect canvas)) =
     [\<lparr>rid = ''rect-7'', xpos = 40, ypos = 60, width = 60, height = 40, color = ''#0000ff''\<rparr>] \<and>
   rectangles (gesture \<lparr>px = 100, py = 100\<rparr> [\<lparr>px = 40, py = 60\<rparr>] 1000 (1/2)
      ((initial\<lparr>isDrawing := True, startPoint := Some \<lparr>px = 100, py = 100\<rparr>,
         currentRect := Some \<lparr>rid = ''rect-7'', xpos = 100, ypos = 100, width = - 60,
           height = - 40, color = ''#0000ff''\<rparr>\<rparr>) :: rect canvas)) =
     [\<lparr>rid = ''rect-1000'', xpos = 40, ypos = 60, width = 60, height = 40, color = ''#7fffff''\<rparr>]"
  using C2_normalization [of
      "initial\<lparr>isDrawing := True, startPoint := Some \<lparr>px = 100, py = 100\<rparr>,
         currentRect := Some \<lparr>rid = ''rect-7'', xpos = 100, ypos = 100, width = - 60,
           height = - 40, color = ''#0000ff''\<rparr>\<rparr>"
      "\<lparr>rid = ''rect-7'', xpos = 100, ypos = 100, width = - 60, height = - 40, color = ''#0000ff''\<rparr>"
      "\<lparr>px = 40, py = 60\<rparr>" "\<lparr>px = 100, py = 100\<rparr>" "[]" 1000 "1/2"]
  by (simp add: initial_def toString10_def toString16_def toString_radix.simps digit_char_def)

section \<open>Resizing\<close>

lemma transform_node: "fst (handleTransformEnd target i s) = target\<lparr>scaleX := 1, scaleY := 1\<rparr>"
  by (simp add: handleTransformEnd_def Let_def)

lemma transform_rectangles:
  "rectangles (snd (handleTransformEnd target i s)) =
     map (\<lambda>r. if rid r = i
               then r\<lparr>xpos := node_x target, ypos := node_y target,
                      width := max 5 (width r * scaleX target),
                      height := max 5 (height r * scaleY target)\<rparr>
               else r) (rectangles s)"
  by (simp add: handleTransformEnd_def Let_def)

lemma transform_floor:
  assumes "r \<in> set (rectangles (snd (handleTransformEnd target i s)))" and "rid r = i"
  shows "5 \<le> width r \<and> 5 \<le> height r"
proof -
  let ?f = "\<lambda>r. if rid r = i
               then r\<lparr>xpos := node_x target, ypos := node_y target,
                      width := max 5 (width r * scaleX target),
                      height := max 5 (height r * scaleY target)\<rparr>
               else r"
  from assms(1) obtain x where x: "r = ?f x"
    unfolding transform_rectangles set_map by blast
  show ?thesis
  proof (cases "rid x = i")
    case True
    with x have "r = x\<lparr>xpos := node_x target, ypos := node_y target,
                      width := max 5 (width x * scaleX target),
                      height := max 5 (height x * scaleY target)\<rparr>" by simp
    then show ?thesis by simp
  next
    case False
    with x have "r = x" by simp
    with False assms(2) show ?thesis by simp
  qed
qed

lemma transform_rest: "(snd (handleTransformEnd target i s))\<lparr>rectangles := rectangles s\<rparr> = s"
  by (simp add: handleTransformEnd_def Let_def)

lemma boundBox_floor:
  "5 \<le> box_width oldBox \<Longrightarrow> 5 \<le> box_height oldBox \<Longrightarrow>
   5 \<le> box_width (boundBoxFunc oldBox newBox) \<and> 5 \<le> box_height (boundBoxFunc oldBox newBox)"
  by (simp add: boundBoxFunc_def)

text \<open>
  C3: \<open>handleTransformEnd\<close> sets the scale of the node back to 1 and leaves its
  position; every rectangle with the given id gets the node's position, width
  \<open>max 5 (width * scaleX)\<close> and height \<open>max 5 (height * scaleY)\<close>, so neither is below 5;
  every other rectangle, and every other state cell, is unchanged. \<open>boundBoxFunc\<close>
  returns the previous box when the attempted one has width or height below 5, so a box
  that is at least 5 by 5 stays so.
\<close>

theorem C3_resize_end:
  "fst (handleTransformEnd target i s) = target\<lparr>scaleX := 1, scaleY := 1\<rparr> \<and>
   length (rectangles (snd (handleTransformEnd target i s))) = length (rectangles s) \<and>
   (\<forall>k < length (rectangles s).
       rectangles (snd (handleTransformEnd target i s)) ! k =
         (if rid (rectangles s ! k) = i
          then (rectangles s ! k)\<lparr>xpos := node_x target, ypos := node_y target,
                  width := max 5 (width (rectangles s ! k) * scaleX target),
                  height := max 5 (height (rectangles s ! k) * scaleY target)\<rparr>
          else rectangles s ! k)) \<and>
   (\<forall>r \<in> set (rectangles (snd (handleTransformEnd target i s))).
       rid r = i \<longrightarrow> 5 \<le> width r \<and> 5 \<le> height r) \<and>
   (snd (handleTransformEnd target i s))\<lparr>rectangles := rectangles s\<rparr> = s \<and>
   boundBoxFunc oldBox newBox =
     (if box_width newBox < 5 \<or> box_height newBox < 5 then oldBox else newBox) \<and>
   (5 \<le> box_width oldBox \<and> 5 \<le> box_height oldBox \<longrightarrow>
      5 \<le> box_width (boundBoxFunc oldBox newBox) \<and> 5 \<le> box_height (boundBoxFunc oldBox newBox))"
proof (intro conjI allI ballI impI)
  show "fst (handleTransformEnd target i s) = target\<lparr>scaleX := 1, scaleY := 1\<rparr>"
    by (rule transform_node)
  show "length (rectangles (snd (handleTransformEnd target i s))) = length (rectangles s)"
    by (simp add: transform_rectangles)
  show "(snd (handleTransformEnd target i s))\<lparr>rectangles := rectangles s\<rparr> = s"
    by (rule transform_rest)
  show "boundBoxFunc oldBox newBox =
     (if box_width newBox < 5 \<or> box_height newBox < 5 then oldBox else newBox)"
    by (simp add: boundBoxFunc_def)
next
  fix k assume "k < length (rectangles s)"
  then show "rectangles (snd (handleTransformEnd target i s)) ! k =
         (if rid (rectangles s ! k) = i
          then (rectangles s ! k)\<lparr>xpos := node_x target, ypos := node_y target,
                  width := max 5 (width (rectangles s ! k) * scaleX target),
                  height := max 5 (height (rectangles s ! k) * scaleY target)\<rparr>
          else rectangles s ! k)"
    by (simp add: transform_rectangles)
next
  fix r assume "r \<in> set (rectangles (snd (handleTransformEnd target i s)))" "rid r = i"
  then show "5 \<le> width r" "5 \<le> height r"
    using transform_floor by blast+
next
  assume "5 \<le> box_width oldBox \<and> 5 \<le> box_height oldBox"
  then show "5 \<le> box_width (boundBoxFunc oldBox newBox)" "5 \<le> box_height (boundBoxFunc oldBox newBox)"
    using boundBox_floor by blast+
qed



theorem C3_resize_end_witness:
  "fst (handleTransformEnd \<lparr>node_x = 7, node_y = 8, scaleX = 1/2, scaleY = 1/100\<rparr> ''rect-1''
      ((initial :: rect canvas)\<lparr>rectangles :=
         [\<lparr>rid = ''rect-1'', xpos = 0, ypos = 0, width = 100, height = 100, color = ''#0000ff''\<rparr>,
          \<lparr>rid = ''rect-2'', xpos = 1, ypos = 2, width = 3, height = 4, color = ''#00ff00''\<rparr>]\<rparr>))
     = \<lparr>node_x = 7, node_y = 8, scaleX = 1, scaleY = 1\<rparr> \<and>
   rectangles (snd (handleTransformEnd \<lparr>node_x = 7, node_y = 8, scaleX = 1/2, scaleY = 1/100\<rparr> ''rect-1''
      ((initial :: rect canvas)\<lparr>rectangles :=
         [\<lparr>rid = ''rect-1'', xpos = 0, ypos = 0, width = 100, height = 100, color = ''#0000ff''\<rparr>,
          \<lparr>rid = ''rect-2'', xpos = 1, ypos = 2, width = 3, height = 4, color = ''#00ff00''\<rparr>]\<rparr>))) ! 0
     = \<lparr>rid = ''rect-1'', xpos = 7, ypos = 8, width = 50, height = 5, color = ''#0000ff''\<rparr> \<and>
   rectangles (snd (handleTransformEnd \<lparr>node_x = 7, node_y = 8, scaleX = 1/2, scaleY = 1/100\<rparr> ''rect-1''
      ((initial :: rect canvas)\<lparr>rectangles :=
         [\<lparr>rid = ''rect-1'', xpos = 0, ypos = 0, width = 100, height = 100, color = ''#0000ff''\<rparr>,
          \<lparr>rid = ''rect-2'', xpos = 1, ypos = 2, width = 3, height = 4, color = ''#00ff00''\<rparr>]\<rparr>))) ! 1
     = \<lparr>rid = ''rect-2'', xpos = 1, ypos = 2, width = 3, height = 4, color = ''#00ff00''\<rparr> \<and>
   boundBoxFunc \<lparr>box_x = 0, box_y = 0, box_width = 20, box_height = 20, box_rotation = 0\<rparr>
       \<lparr>box_x = 0, box_y = 0, box_width = 4, box_height = 20, box_rotation = 0\<rparr> =
     \<lparr>box_x = 0, box_y = 0, box_width = 20, box_height = 20, box_rotation = 0\<rparr>"
proof -
  let ?s = "(initial :: rect canvas)\<lparr>rectangles :=
         [\<lparr>rid = ''rect-1'', xpos = 0, ypos = 0, width = 100, height = 100, color = ''#0000ff''\<rparr>,
          \<lparr>rid = ''rect-2'', xpos = 1, ypos = 2, width = 3, height = 4, color = ''#00ff00''\<rparr>]\<rparr>"
  let ?n = "\<lparr>node_x = 7, node_y = 8, scaleX = 1/2, scaleY = 1/100\<rparr>"
  let ?old = "\<lparr>box_x = 0, box_y = 0, box_width = 20, box_height = 20, box_rotation = 0\<rparr>"
  let ?new = "\<lparr>box_x = 0, box_y = 0, box_width = 4, box_height = 20, box_rotation = 0\<rparr>"
  note t = C3_resize_end [of ?n "''rect-1''" ?s ?old ?new]
  from t have nd: "fst (handleTransformEnd ?n ''rect-1'' ?s) = ?n\<lparr>scaleX := 1, scaleY := 1\<rparr>"
    by (rule conjunct1)
  from t have k: "\<forall>k<length (rectangles ?s). rectangles (snd (handleTransformEnd ?n ''rect-1'' ?s)) ! k =
         (if rid (rectangles ?s ! k) = ''rect-1''
          then (rectangles ?s ! k)\<lparr>xpos := node_x ?n, ypos := node_y ?n,
                  width := max 5 (width (rectangles ?s ! k) * scaleX ?n),
                  height := max 5 (height (rectangles ?s ! k) * scaleY ?n)\<rparr>
          else rectangles ?s ! k)"
    by (elim conjE)
  have k0: "rectangles (snd (handleTransformEnd ?n ''rect-1'' ?s)) ! 0 =
       \<lparr>rid = ''rect-1'', xpos = 7, ypos = 8, width = 50, height = 5, color = ''#0000ff''\<rparr>"
    using k[rule_format, of 0] by simp
  have k1: "rectangles (snd (handleTransformEnd ?n ''rect-1'' ?s)) ! 1 =
       \<lparr>rid = ''rect-2'', xpos = 1, ypos = 2, width = 3, height = 4, color = ''#00ff00''\<rparr>"
    using k[rule_format, of 1] by simp
  from t have "boundBoxFunc ?old ?new =
     (if box_width ?new < 5 \<or> box_height ?new < 5 then ?old else ?new)"
    by (elim conjE)
  then have bb: "boundBoxFunc ?old ?new = ?old" by simp
  from nd have nd': "fst (handleTransformEnd ?n ''rect-1'' ?s) = \<lparr>node_x = 7, node_y = 8, scaleX = 1, scaleY = 1\<rparr>"
    by simp
  show ?thesis
    using nd' k0 k1 bb by (intro conjI)
qed

section \<open>File import and export\<close>

text \<open>
  C4, as stated, fails: \<open>loadFromFile\<close> tests \<open>Array.isArray\<close> and nothing else. The
  document \<open>[1, null]\<close> parses to an array that holds no rectangle record; it replaces
  the rectangle list, and no error message is set. The document \<open>{}\<close> parses to a value
  that is not an array; no error message is set.
\<close>

theorem C4_import_unvalidated_counterexample:
  "rectangles (loadFromFile (\<lambda>t. if t = ''[1, null]'' then Array [JNumber 1, JNull] else SyntaxError)
      (Some ''[1, null]'') (initial\<lparr>rectangles := [JObject [(''id'', JString ''rect-1'')]]\<rparr>))
     = [JNumber 1, JNull] \<and>
   error (loadFromFile (\<lambda>t. if t = ''[1, null]'' then Array [JNumber 1, JNull] else SyntaxError)
      (Some ''[1, null]'') (initial\<lparr>rectangles := [JObject [(''id'', JString ''rect-1'')]]\<rparr>))
     = [] \<and>
   error (loadFromFile (\<lambda>t. if t = ''{}'' then NonArray else SyntaxError)
      (Some ''{}'') (initial\<lparr>rectangles := [JObject [(''id'', JString ''rect-1'')]]\<rparr>))
     = []"
  by (simp add: loadFromFile_def initial_def)

text \<open>
  C4, amended: a document that parses to an array replaces the rectangle list by that
  array, whatever its elements are, and clears the selection; a document that does not
  parse leaves the state as it is but for the error message \<open>Invalid file format\<close>; a
  document that parses to a value that is not an array leaves the rectangle list and the
  selection as they are; with no file chosen nothing changes.
\<close>

theorem C4_import:
  "loadFromFile JSON_parse None s = s \<and>
   (JSON_parse text = SyntaxError \<longrightarrow>
      loadFromFile JSON_parse (Some text) s = s\<lparr>error := ''Invalid file format''\<rparr>) \<and>
   (JSON_parse text = NonArray \<longrightarrow>
      rectangles (loadFromFile JSON_parse (Some text) s) = rectangles s \<and>
      selectedId (loadFromFile JSON_parse (Some text) s) = selectedId s) \<and>
   (JSON_parse text = Array data \<longrightarrow>
      loadFromFile JSON_parse (Some text) s = s\<lparr>rectangles := data, selectedId := None\<rparr>)"
  by (simp add: loadFromFile_def)

theorem C4_import_witness:
  "loadFromFile (\<lambda>t. if t = ''[1, null]'' then Array [JNumber 1, JNull]
                       else if t = ''{}'' then NonArray else SyntaxError)
      (Some ''[1, null]'') (initial\<lparr>rectangles := [JNull], selectedId := Some ''a''\<rparr>)
     = initial\<lparr>rectangles := [JNumber 1, JNull], selectedId := None\<rparr> \<and>
   rectangles (loadFromFile (\<lambda>t. if t = ''[1, null]'' then Array [JNumber 1, JNull]
                       else if t = ''{}'' then NonArray else SyntaxError)
      (Some ''{}'') (initial\<lparr>rectangles := [JNull], selectedId := Some ''a''\<rparr>))
     = [JNull] \<and>
   loadFromFile (\<lambda>t. if t = ''[1, null]'' then Array [JNumber 1, JNull]
                       else if t = ''{}'' then NonArray else SyntaxError)
      (Some ''[1,'') (initial\<lparr>rectangles := [JNull], selectedId := Some ''a''\<rparr>)
     = initial\<lparr>rectangles := [JNull], selectedId := Some ''a'', error := ''Invalid file format''\<rparr>"
proof -
  let ?p = "\<lambda>t. if t = ''[1, null]'' then Array [JNumber 1, JNull]
                       else if t = ''{}'' then NonArray else SyntaxError"
  let ?s = "(initial :: json canvas)\<lparr>rectangles := [JNull], selectedId := Some ''a''\<rparr>"
  have a: "?p ''[1, null]'' = Array [JNumber 1, JNull]" by simp
  have b: "?p ''{}'' = NonArray" by simp
  have c: "?p ''[1,'' = SyntaxError" by simp
  show ?thesis
    using C4_import [of ?p ?s "''[1, null]''" "[JNumber 1, JNull]"]
      C4_import [of ?p ?s "''{}''"] C4_import [of ?p ?s "''[1,''"] a b c
    by simp
qed



section \<open>Saving\<close>

lemma save_with_id:
  assumes "annotationId s = Some i" and "i \<noteq> []"
  shows "fst (saveAnnotations service tok s) = Put i tok (rectangles s)"
    and "annotationId (snd (saveAnnotations service tok s)) = Some i"
  using assms
  by (simp_all add: saveAnnotations_def saveAnnotations_request_def
      saveAnnotations_settled_def Let_def split: response.splits)

lemma save_without_id:
  assumes "\<not> truthy (annotationId s)"
  shows "fst (saveAnnotations service tok s) = Post tok (rectangles s)"
  using assms
  by (simp add: saveAnnotations_def saveAnnotations_request_def truthy_def Let_def
      split: option.splits)

lemma save_all_with_id:
  assumes "annotationId s = Some i" and "i \<noteq> []"
  shows "(\<forall>req \<in> set (fst (save_all tok es s)). \<exists>data. req = Put i tok data) \<and>
         annotationId (snd (save_all tok es s)) = Some i"
  using assms
proof (induction es arbitrary: s)
  case Nil
  then show ?case by simp
next
  case (Cons e es)
  let ?s0 = "s\<lparr>rectangles := fst e\<rparr>"
  let ?r = "saveAnnotations (\<lambda>r. snd e) tok ?s0"
  have id0: "annotationId ?s0 = Some i" using Cons.prems by simp
  have req: "fst ?r = Put i tok (fst e)"
    using save_with_id(1)[OF id0 Cons.prems(2)] by simp
  have id1: "annotationId (snd ?r) = Some i"
    using save_with_id(2)[OF id0 Cons.prems(2)] by simp
  have ih: "(\<forall>req \<in> set (fst (save_all tok es (snd ?r))). \<exists>data. req = Put i tok data) \<and>
         annotationId (snd (save_all tok es (snd ?r))) = Some i"
    by (rule Cons.IH[OF id1 Cons.prems(2)])
  have unfold: "save_all tok (e # es) s =
      (fst ?r # fst (save_all tok es (snd ?r)), snd (save_all tok es (snd ?r)))"
    by (simp add: case_prod_beta Let_def)
  show ?case
    unfolding unfold using ih req by simp
qed

text \<open>
  What a call of \<open>saveAnnotations\<close> does, by the state it reads. A save from a state whose \<open>annotationId\<close> is a non-empty string sends a PUT for
  that id with the current rectangle list and leaves the id as it is; when the request
  resolves only the error message changes, to the empty string; and every later save,
  whatever the edits and answers in between, is a PUT for the same id. A save from a
  state without an id sends a POST; when it resolves with an id \<open>j\<close> the state takes \<open>j\<close>
  as its \<open>annotationId\<close> and clears the error message, and (\<open>j\<close> being non-empty, as the
  ids of the service are) every later save is a PUT for \<open>j\<close>. A rejected request sets the
  error message \<open>Failed to save annotations\<close> and changes nothing else.
\<close>

lemma save_semantics:
  "(annotationId s = Some i \<and> i \<noteq> [] \<longrightarrow>
      fst (saveAnnotations service tok s) = Put i tok (rectangles s) \<and>
      annotationId (snd (saveAnnotations service tok s)) = Some i \<and>
      (\<forall>j. service (Put i tok (rectangles s)) = Resolved j \<longrightarrow>
           snd (saveAnnotations service tok s) = s\<lparr>error := []\<rparr>) \<and>
      (\<forall>req \<in> set (fst (save_all tok es s)). \<exists>data. req = Put i tok data) \<and>
      annotationId (snd (save_all tok es s)) = Some i) \<and>
   (\<not> truthy (annotationId s) \<longrightarrow>
      fst (saveAnnotations service tok s) = Post tok (rectangles s) \<and>
      (\<forall>j. service (Post tok (rectangles s)) = Resolved j \<longrightarrow>
           snd (saveAnnotations service tok s) = s\<lparr>annotationId := Some j, error := []\<rparr> \<and>
           (j \<noteq> [] \<longrightarrow>
              (\<forall>req \<in> set (fst (save_all tok es (snd (saveAnnotations service tok s)))).
                  \<exists>data. req = Put j tok data)))) \<and>
   (service (fst (saveAnnotations service tok s)) = Rejected \<longrightarrow>
      snd (saveAnnotations service tok s) = s\<lparr>error := ''Failed to save annotations''\<rparr>)"
proof (intro conjI impI allI)
  assume a: "annotationId s = Some i \<and> i \<noteq> []"
  then show "fst (saveAnnotations service tok s) = Put i tok (rectangles s)"
    and "annotationId (snd (saveAnnotations service tok s)) = Some i"
    using save_with_id by blast+
  from a show "\<forall>req \<in> set (fst (save_all tok es s)). \<exists>data. req = Put i tok data"
    and "annotationId (snd (save_all tok es s)) = Some i"
    using save_all_with_id by blast+
  fix j assume "service (Put i tok (rectangles s)) = Resolved j"
  with a show "snd (saveAnnotations service tok s) = s\<lparr>error := []\<rparr>"
    by (simp add: saveAnnotations_def saveAnnotations_request_def
        saveAnnotations_settled_def Let_def)
next
  assume n: "\<not> truthy (annotationId s)"
  then show p: "fst (saveAnnotations service tok s) = Post tok (rectangles s)"
    by (rule save_without_id)
  fix j assume r: "service (Post tok (rectangles s)) = Resolved j"
  have req: "saveAnnotations_request tok s = Post tok (rectangles s)"
    using p by (simp add: saveAnnotations_def Let_def)
  show adopted: "snd (saveAnnotations service tok s) = s\<lparr>annotationId := Some j, error := []\<rparr>"
    using r by (simp add: saveAnnotations_def req saveAnnotations_settled_def Let_def)
  assume "j \<noteq> []"
  moreover have "annotationId (snd (saveAnnotations service tok s)) = Some j"
    by (simp add: adopted)
  ultimately show "\<forall>req \<in> set (fst (save_all tok es (snd (saveAnnotations service tok s)))).
                  \<exists>data. req = Put j tok data"
    using save_all_with_id by blast
next
  assume "service (fst (saveAnnotations service tok s)) = Rejected"
  then show "snd (saveAnnotations service tok s) = s\<lparr>error := ''Failed to save annotations''\<rparr>"
    by (simp add: saveAnnotations_def saveAnnotations_settled_def Let_def)
qed

lemma save_semantics_example:
  "saveAnnotations (\<lambda>req. Resolved ''A1'') (Some ''tk'')
      ((initial :: rect canvas)\<lparr>rectangles :=
         [\<lparr>rid = ''rect-1'', xpos = 0, ypos = 0, width = 10, height = 10, color = ''#0000ff''\<rparr>]\<rparr>)
    = (Post (Some ''tk'')
         [\<lparr>rid = ''rect-1'', xpos = 0, ypos = 0, width = 10, height = 10, color = ''#0000ff''\<rparr>],
       (initial :: rect canvas)\<lparr>rectangles :=
         [\<lparr>rid = ''rect-1'', xpos = 0, ypos = 0, width = 10, height = 10, color = ''#0000ff''\<rparr>],
         annotationId := Some ''A1''\<rparr>) \<and>
   fst (saveAnnotations (\<lambda>req. Rejected) (Some ''tk'')
      ((initial :: rect canvas)\<lparr>annotationId := Some ''A1''\<rparr>))
    = Put ''A1'' (Some ''tk'') [] \<and>
   snd (saveAnnotations (\<lambda>req. Rejected) (Some ''tk'')
      ((initial :: rect canvas)\<lparr>annotationId := Some ''A1''\<rparr>))
    = (initial :: rect canvas)\<lparr>annotationId := Some ''A1'', error := ''Failed to save annotations''\<rparr> \<and>
   fst (save_all (Some ''tk'') [([], Rejected), ([], Resolved ''B2'')]
      ((initial :: rect canvas)\<lparr>annotationId := Some ''A1''\<rparr>))
    = [Put ''A1'' (Some ''tk'') [], Put ''A1'' (Some ''tk'') []]"
proof -
  let ?r = "\<lparr>rid = ''rect-1'', xpos = 0, ypos = 0, width = 10, height = 10, color = ''#0000ff''\<rparr>"
  let ?s0 = "(initial :: rect canvas)\<lparr>rectangles := [?r]\<rparr>"
  let ?s1 = "(initial :: rect canvas)\<lparr>annotationId := Some ''A1''\<rparr>"
  have n: "\<not> truthy (annotationId ?s0)" by (simp add: truthy_def initial_def)
  have i: "annotationId ?s1 = Some ''A1'' \<and> ''A1'' \<noteq> []" by simp
  from n save_semantics [of ?s0 "[]" "\<lambda>req. Resolved ''A1''" "Some ''tk''" "[]"]
  have a: "fst (saveAnnotations (\<lambda>req. Resolved ''A1'') (Some ''tk'') ?s0) = Post (Some ''tk'') [?r]"
    and b: "snd (saveAnnotations (\<lambda>req. Resolved ''A1'') (Some ''tk'') ?s0)
             = ?s0\<lparr>annotationId := Some ''A1'', error := []\<rparr>"
    by simp_all
  from i save_semantics [of ?s1 "''A1''" "\<lambda>req. Rejected" "Some ''tk''" "[([], Rejected), ([], Resolved ''B2'')]"]
  have c: "fst (saveAnnotations (\<lambda>req. Rejected) (Some ''tk'') ?s1) = Put ''A1'' (Some ''tk'') []"
    and d: "snd (saveAnnotations (\<lambda>req. Rejected) (Some ''tk'') ?s1)
             = ?s1\<lparr>error := ''Failed to save annotations''\<rparr>"
    and e: "\<forall>req \<in> set (fst (save_all (Some ''tk'') [([], Rejected), ([], Resolved ''B2'')] ?s1)).
              \<exists>data. req = Put ''A1'' (Some ''tk'') data"
    by (simp_all add: initial_def)
  have f: "fst (save_all (Some ''tk'') [([], Rejected), ([], Resolved ''B2'')] ?s1)
    = [Put ''A1'' (Some ''tk'') [], Put ''A1'' (Some ''tk'') []]"
    by (simp add: saveAnnotations_def saveAnnotations_request_def saveAnnotations_settled_def
        Let_def initial_def)
  from a b have ab: "saveAnnotations (\<lambda>req. Resolved ''A1'') (Some ''tk'') ?s0
      = (Post (Some ''tk'') [?r], ?s0\<lparr>annotationId := Some ''A1'', error := []\<rparr>)"
    by (simp add: prod_eq_iff)
  show ?thesis
    using ab c d f by (simp add: initial_def)
qed

section \<open>Selection\<close>

lemma selection_ok_keep:
  assumes "selection_ok s" and "selectedId t = selectedId s"
    and "set (map rid (rectangles s)) \<subseteq> set (map rid (rectangles t))"
  shows "selection_ok t"
  using assms unfolding selection_ok_def by (cases "selectedId s") auto

lemma rid_handleDragEnd: "map rid (rectangles (handleDragEnd target i s)) = map rid (rectangles s)"
  by (simp add: handleDragEnd_def comp_def if_distrib cong: if_cong)

lemma rid_handleTransformEnd:
  "map rid (rectangles (snd (handleTransformEnd target i s))) = map rid (rectangles s)"
  by (simp add: handleTransformEnd_def Let_def comp_def if_distrib cong: if_cong)

lemma rectangles_handleMouseUp:
  "set (rectangles s) \<subseteq> set (rectangles (handleMouseUp s))"
  by (auto simp: handleMouseUp_def split: option.splits)

lemma selection_ok_perform:
  assumes "selection_ok s"
  shows "selection_ok (perform a s)"
proof (cases a)
  case ToggleDrawing
  with assms show ?thesis by (auto intro: selection_ok_keep)
next
  case (MouseDown onStage pos now rnd)
  with assms show ?thesis
    by (auto intro!: selection_ok_keep[of s] simp: handleMouseDown_def)
next
  case (MouseMove pos)
  with assms show ?thesis
    by (auto intro!: selection_ok_keep[of s] simp: handleMouseMove_def split: option.splits)
next
  case MouseUp
  have "selectedId (handleMouseUp s) = selectedId s"
    by (simp add: handleMouseUp_def split: option.splits)
  moreover have "set (map rid (rectangles s)) \<subseteq> set (map rid (rectangles (handleMouseUp s)))"
    using rectangles_handleMouseUp[of s] by auto
  ultimately have "selection_ok (handleMouseUp s)"
    using assms by (rule selection_ok_keep[rotated])
  with MouseUp show ?thesis by simp
next
  case (Click k)
  with assms show ?thesis by (simp add: onClick_def selection_ok_def)
next
  case (DragEnd target i)
  have "selectedId (handleDragEnd target i s) = selectedId s" by (simp add: handleDragEnd_def)
  with assms DragEnd show ?thesis
    by (auto intro!: selection_ok_keep[of s] simp only: rid_handleDragEnd perform.simps)
next
  case (TransformEnd target i)
  have "selectedId (snd (handleTransformEnd target i s)) = selectedId s"
    by (simp add: handleTransformEnd_def Let_def)
  with assms TransformEnd show ?thesis
    by (auto intro!: selection_ok_keep[of s] simp only: rid_handleTransformEnd perform.simps)
next
  case DeleteSelected
  with assms show ?thesis by (simp add: deleteSelected_def selection_ok_def)
next
  case ClearAll
  then show ?thesis by (simp add: clearAll_def selection_ok_def)
next
  case (LoadFromFile JSON_parse chosen)
  with assms show ?thesis
    by (simp add: loadFromFile_def selection_ok_def split: option.splits parse_result.splits)
next
  case (SetAutoSave b)
  with assms show ?thesis by (auto intro: selection_ok_keep)
next
  case (SaveSettled req resp)
  with assms show ?thesis
    by (auto intro!: selection_ok_keep[of s] simp: saveAnnotations_settled_def
        split: response.splits request.splits)
qed

lemma selection_ok_run: "selection_ok s \<Longrightarrow> selection_ok (run acts s)"
  unfolding run_def by (induction acts arbitrary: s) (simp_all add: selection_ok_perform)

lemma selection_ok_start: "selection_ok (fetchAnnotations answer initial)"
  by (simp add: fetchAnnotations_def initial_def selection_ok_def split: option.splits)

lemma deleteSelected_removes:
  assumes "selectedId s = Some i" and "i \<noteq> []"
  shows "selectedId (deleteSelected s) = None"
    and "rectangles (deleteSelected s) = filter (\<lambda>r. rid r \<noteq> i) (rectangles s)"
    and "i \<notin> set (map rid (rectangles (deleteSelected s)))"
  using assms by (auto simp: deleteSelected_def truthy_def)

text \<open>
  C8: with a rectangle selected (\<open>selectedId\<close> a non-empty string, which is when the
  Delete Selected button is enabled), \<open>deleteSelected\<close> clears the selection and keeps
  exactly the rectangles with another id, so none with the selected id is left;
  \<open>clearAll\<close> empties the list and clears the selection; and after every run of the
  editor from the state \<open>fetchAnnotations\<close> leaves at mount, \<open>selectedId\<close> is \<open>null\<close> or
  the id of a rectangle in the list.
\<close>

theorem C8_selection:
  "(selectedId s = Some i \<and> i \<noteq> [] \<longrightarrow>
      selectedId (deleteSelected s) = None \<and>
      rectangles (deleteSelected s) = filter (\<lambda>r. rid r \<noteq> i) (rectangles s) \<and>
      i \<notin> set (map rid (rectangles (deleteSelected s)))) \<and>
   rectangles (clearAll s) = [] \<and> selectedId (clearAll s) = None \<and>
   selection_ok (run acts (fetchAnnotations answer initial))"
  using deleteSelected_removes[of s i] selection_ok_run[OF selection_ok_start, of acts answer]
  by (simp add: clearAll_def)

theorem C8_selection_witness:
  "selectedId (deleteSelected ((initial :: rect canvas)\<lparr>rectangles :=
       [\<lparr>rid = ''rect-1'', xpos = 0, ypos = 0, width = 10, height = 10, color = ''#0000ff''\<rparr>,
        \<lparr>rid = ''rect-2'', xpos = 5, ypos = 5, width = 20, height = 20, color = ''#00ff00''\<rparr>],
       selectedId := Some ''rect-1''\<rparr>)) = None \<and>
   rectangles (deleteSelected ((initial :: rect canvas)\<lparr>rectangles :=
       [\<lparr>rid = ''rect-1'', xpos = 0, ypos = 0, width = 10, height = 10, color = ''#0000ff''\<rparr>,
        \<lparr>rid = ''rect-2'', xpos = 5, ypos = 5, width = 20, height = 20, color = ''#00ff00''\<rparr>],
       selectedId := Some ''rect-1''\<rparr>))
     = [\<lparr>rid = ''rect-2'', xpos = 5, ypos = 5, width = 20, height = 20, color = ''#00ff00''\<rparr>] \<and>
   selection_ok (run [Click 1, DeleteSelected, Click 0]
     (fetchAnnotations (Some [(''A1'',
       [\<lparr>rid = ''rect-1'', xpos = 0, ypos = 0, width = 10, height = 10, color = ''#0000ff''\<rparr>,
        \<lparr>rid = ''rect-2'', xpos = 5, ypos = 5, width = 20, height = 20, color = ''#00ff00''\<rparr>])])
       initial))"
proof -
  let ?r1 = "\<lparr>rid = ''rect-1'', xpos = 0, ypos = 0, width = 10, height = 10, color = ''#0000ff''\<rparr>"
  let ?r2 = "\<lparr>rid = ''rect-2'', xpos = 5, ypos = 5, width = 20, height = 20, color = ''#00ff00''\<rparr>"
  let ?s = "(initial :: rect canvas)\<lparr>rectangles := [?r1, ?r2], selectedId := Some ''rect-1''\<rparr>"
  have h: "selectedId ?s = Some ''rect-1'' \<and> ''rect-1'' \<noteq> []" by simp
  show ?thesis
    using h C8_selection [of ?s "''rect-1''" "[Click 1, DeleteSelected, Click 0]"
        "Some [(''A1'', [?r1, ?r2])]"]
    by simp
qed

section \<open>Ids and colours of new rectangles\<close>

lemma digit_char_hex: "d < 16 \<Longrightarrow> is_hex_digit (digit_char d)"
proof -
  assume "d < 16"
  then have "d < length ''0123456789abcdef''" by simp
  then have "''0123456789abcdef'' ! d \<in> set ''0123456789abcdef''" by (rule nth_mem)
  then show ?thesis unfolding digit_char_def is_hex_digit_def by auto
qed

lemma toString_radix_hex:
  "2 \<le> b \<Longrightarrow> b \<le> 16 \<Longrightarrow>
   toString_radix b n \<noteq> [] \<and> list_all is_hex_digit (toString_radix b n)"
proof (induction b n rule: toString_radix.induct)
  case (1 b n)
  show ?case
  proof (cases "n < b")
    case True
    with 1 have "n < 16" by simp
    then have "is_hex_digit (digit_char n)" by (rule digit_char_hex)
    moreover have "toString_radix b n = [digit_char n]"
      using True by (subst toString_radix.simps) simp
    ultimately show ?thesis by simp
  next
    case False
    with 1 have rec: "toString_radix b n = toString_radix b (n div b) @ [digit_char (n mod b)]"
      by (subst toString_radix.simps) simp
    have "n mod b < 16" using 1(2,3)
      by (meson le_trans less_le_trans mod_less_divisor not_less zero_less_numeral less_le_not_le pos2)
    then have "is_hex_digit (digit_char (n mod b))" by (rule digit_char_hex)
    moreover have "list_all is_hex_digit (toString_radix b (n div b))"
      using 1 False by simp
    ultimately show ?thesis by (simp add: rec)
  qed
qed

lemma digit_char_inj: "a < 10 \<Longrightarrow> b < 10 \<Longrightarrow> digit_char a = digit_char b \<Longrightarrow> a = b"
proof -
  assume a: "a < 10" and b: "b < 10" and e: "digit_char a = digit_char b"
  have d: "distinct ''0123456789abcdef''" by simp
  have "a < length ''0123456789abcdef''" "b < length ''0123456789abcdef''" using a b by simp_all
  with d e show "a = b" unfolding digit_char_def by (simp only: nth_eq_iff_index_eq)
qed

lemma toString10_small: "n < 10 \<Longrightarrow> toString10 n = [digit_char n]"
  unfolding toString10_def by (subst toString_radix.simps) simp

lemma toString10_large:
  "\<not> n < 10 \<Longrightarrow> toString10 n = toString10 (n div 10) @ [digit_char (n mod 10)]"
  unfolding toString10_def by (subst toString_radix.simps) simp

lemma toString10_nonempty: "toString10 n \<noteq> []"
  using toString_radix_hex[of 10 n] by (simp add: toString10_def)

lemma toString10_inj: "toString10 n = toString10 m \<Longrightarrow> n = m"
proof (induction n arbitrary: m rule: less_induct)
  case (less n)
  show ?case
  proof (cases "n < 10")
    case n: True
    show ?thesis
    proof (cases "m < 10")
      case True
      with n less.prems show ?thesis
        by (simp add: toString10_small digit_char_inj)
    next
      case False
      with n less.prems toString10_nonempty[of "m div 10"] show ?thesis
        by (simp add: toString10_small toString10_large)
    qed
  next
    case n: False
    show ?thesis
    proof (cases "m < 10")
      case True
      with n less.prems toString10_nonempty[of "n div 10"] show ?thesis
        by (simp add: toString10_small toString10_large)
    next
      case False
      with n less.prems have e: "toString10 (n div 10) = toString10 (m div 10)"
        and d: "digit_char (n mod 10) = digit_char (m mod 10)"
        by (simp_all add: toString10_large)
      have "n div 10 < n" using n by simp
      then have q: "n div 10 = m div 10" using e by (rule less.IH)
      have r: "n mod 10 = m mod 10" using d by (simp add: digit_char_inj)
      from q r show ?thesis by (metis div_mult_mod_eq)
    qed
  qed
qed

lemma created_color:
  "\<exists>ds. CHR ''#'' # toString16 n = CHR ''#'' # ds \<and> ds \<noteq> [] \<and> list_all is_hex_digit ds"
  using toString_radix_hex[of 16 n] by (simp add: toString16_def)

lemma gesture_rids:
  assumes "isDrawing s"
  shows "map rid (rectangles (gesture p (qs @ [q]) now rnd s)) =
     (if \<bar>px q - px p\<bar> > 5 \<and> \<bar>py q - py p\<bar> > 5
      then map rid (rectangles s) @ [''rect-'' @ toString10 now]
      else map rid (rectangles s))"
  by (simp add: gesture_commit[OF assms])

lemma toString_radix_length:
  "2 \<le> b \<Longrightarrow> 0 < k \<Longrightarrow> n < b ^ k \<Longrightarrow> length (toString_radix b n) \<le> k"
proof (induction k arbitrary: n)
  case 0
  then show ?case by simp
next
  case (Suc k)
  show ?case
  proof (cases "n < b")
    case True
    then show ?thesis by (subst toString_radix.simps) simp
  next
    case False
    then have k: "0 < k" using Suc.prems by (cases k) auto
    have "n div b < b ^ k"
      using Suc.prems by (simp add: less_mult_imp_div_less mult.commute)
    then have "length (toString_radix b (n div b)) \<le> k"
      using Suc.IH[OF Suc.prems(1) k] by simp
    with False Suc.prems(1) show ?thesis by (subst toString_radix.simps) simp
  qed
qed

lemma short_color: "n < 1048576 \<Longrightarrow> \<not> valid_hex_rgb (CHR ''#'' # toString16 n)"
  using toString_radix_length[of 16 5 n] by (simp add: valid_hex_rgb_def toString16_def)

text \<open>
  C9 fails on the colour. \<open>toString(16)\<close> writes no leading zeros, so whenever
  \<open>Math.floor(Math.random()*16777215)\<close> is below \<open>0x100000\<close>, which it is for every value
  of \<open>Math.random()\<close> below 1/16, the colour of the rectangle created at pointer-down
  has fewer than six digits. With \<open>Math.random()\<close> at 0.00001 the colour is \<open>#a7\<close>.
\<close>

theorem C9_short_color:
  assumes "isDrawing s" and "rnd < 1 / 16"
  shows "\<exists>r. currentRect (handleMouseDown True pos now rnd s) = Some r \<and> \<not> valid_hex_rgb (color r)"
proof -
  have "rnd * 16777215 < 1048576" using assms(2) by simp
  then have "\<lfloor>rnd * 16777215\<rfloor> < (1048576 :: int)" by (subst floor_less_iff) simp
  then have "nat \<lfloor>rnd * 16777215\<rfloor> < 1048576" by arith
  then have "\<not> valid_hex_rgb (CHR ''#'' # toString16 (nat \<lfloor>rnd * 16777215\<rfloor>))"
    by (rule short_color)
  with assms(1) show ?thesis by (simp add: handleMouseDown_def)
qed

theorem C9_short_color_witness:
  "currentRect (handleMouseDown True \<lparr>px = 0, py = 0\<rparr> 1000 (1/100000)
      (initial\<lparr>isDrawing := True\<rparr>))
     = Some \<lparr>rid = ''rect-1000'', xpos = 0, ypos = 0, width = 0, height = 0, color = ''#a7''\<rparr> \<and>
   \<not> valid_hex_rgb ''#a7''"
proof -
  let ?s = "(initial :: rect canvas)\<lparr>isDrawing := True\<rparr>"
  have d: "isDrawing ?s" by simp
  have r: "(1/100000 :: real) < 1 / 16" by simp
  have v: "currentRect (handleMouseDown True \<lparr>px = 0, py = 0\<rparr> 1000 (1/100000) ?s)
     = Some \<lparr>rid = ''rect-1000'', xpos = 0, ypos = 0, width = 0, height = 0, color = ''#a7''\<rparr>"
    by (simp add: handleMouseDown_def initial_def toString10_def toString16_def
        toString_radix.simps digit_char_def)
  from C9_short_color [OF d r, of "\<lparr>px = 0, py = 0\<rparr>" 1000]
  have "\<not> valid_hex_rgb ''#a7''" unfolding v by simp
  with v show ?thesis by simp
qed

text \<open>
  The id of the rectangle created at pointer-down is \<open>rect-\<close> followed by the decimal
  time of creation, and its colour is \<open>#\<close> followed by one or more hexadecimal digits.
  Ids made at different times differ; when the ids of the list are distinct and none of
  them is the id of the new rectangle, they are distinct after the gesture too.
  Normalization at pointer-up keeps id and colour, and drag end and resize end keep the
  ids of the list. Two gestures that start at the same value of \<open>Date.now()\<close> give the
  same id.
\<close>

lemma created_rectangle_id:
  "(isDrawing s \<longrightarrow>
      (\<exists>r ds. currentRect (handleMouseDown True pos now rnd s) = Some r \<and>
          rid r = ''rect-'' @ toString10 now \<and>
          color r = CHR ''#'' # ds \<and> ds \<noteq> [] \<and> list_all is_hex_digit ds)) \<and>
   (''rect-'' @ toString10 now = ''rect-'' @ toString10 now' \<longrightarrow> now = now') \<and>
   (isDrawing s \<and> distinct (map rid (rectangles s)) \<and>
    ''rect-'' @ toString10 now \<notin> set (map rid (rectangles s)) \<longrightarrow>
      distinct (map rid (rectangles (gesture pos (qs @ [q]) now rnd s)))) \<and>
   rid (finalRect cr) = rid cr \<and> color (finalRect cr) = color cr \<and>
   map rid (rectangles (handleDragEnd target i s)) = map rid (rectangles s) \<and>
   map rid (rectangles (snd (handleTransformEnd target i s))) = map rid (rectangles s)"
proof (intro conjI impI)
  assume "isDrawing s"
  then show "\<exists>r ds. currentRect (handleMouseDown True pos now rnd s) = Some r \<and>
          rid r = ''rect-'' @ toString10 now \<and>
          color r = CHR ''#'' # ds \<and> ds \<noteq> [] \<and> list_all is_hex_digit ds"
    using created_color[of "nat \<lfloor>rnd * 16777215\<rfloor>"]
    by (simp add: handleMouseDown_def)
next
  assume "''rect-'' @ toString10 now = ''rect-'' @ toString10 now'"
  then show "now = now'" by (simp add: toString10_inj)
next
  assume "isDrawing s \<and> distinct (map rid (rectangles s)) \<and>
    ''rect-'' @ toString10 now \<notin> set (map rid (rectangles s))"
  then show "distinct (map rid (rectangles (gesture pos (qs @ [q]) now rnd s)))"
    by (simp add: gesture_rids)
next
  show "rid (finalRect cr) = rid cr" "color (finalRect cr) = color cr"
    by (simp_all add: finalRect_def)
  show "map rid (rectangles (handleDragEnd target i s)) = map rid (rectangles s)"
    by (rule rid_handleDragEnd)
  show "map rid (rectangles (snd (handleTransformEnd target i s))) = map rid (rectangles s)"
    by (rule rid_handleTransformEnd)
qed

lemma created_rectangle_id_example:
  "map rid (rectangles (gesture \<lparr>px = 20, py = 20\<rparr> [\<lparr>px = 30, py = 30\<rparr>] 1001 (1/2)
      ((initial :: rect canvas)\<lparr>isDrawing := True, rectangles :=
         [\<lparr>rid = ''rect-1000'', xpos = 0, ypos = 0, width = 10, height = 10, color = ''#a7''\<rparr>]\<rparr>)))
     = [''rect-1000'', ''rect-1001''] \<and>
   distinct (map rid (rectangles (gesture \<lparr>px = 20, py = 20\<rparr> [\<lparr>px = 30, py = 30\<rparr>] 1001 (1/2)
      ((initial :: rect canvas)\<lparr>isDrawing := True, rectangles :=
         [\<lparr>rid = ''rect-1000'', xpos = 0, ypos = 0, width = 10, height = 10, color = ''#a7''\<rparr>]\<rparr>))))"
proof -
  let ?r = "\<lparr>rid = ''rect-1000'', xpos = 0, ypos = 0, width = 10, height = 10, color = ''#a7''\<rparr>"
  let ?s = "(initial :: rect canvas)\<lparr>isDrawing := True, rectangles := [?r]\<rparr>"
  have n: "toString10 1001 = ''1001''"
    by (simp add: toString10_def toString_radix.simps digit_char_def)
  have h: "isDrawing ?s \<and> distinct (map rid (rectangles ?s)) \<and>
    ''rect-'' @ toString10 1001 \<notin> set (map rid (rectangles ?s))"
    by (simp add: n)
  have d: "distinct (map rid (rectangles (gesture \<lparr>px = 20, py = 20\<rparr> ([] @ [\<lparr>px = 30, py = 30\<rparr>]) 1001 (1/2) ?s)))"
    using h created_rectangle_id [of ?s "\<lparr>px = 20, py = 20\<rparr>" 1001 "1/2" 1001 "[]" "\<lparr>px = 30, py = 30\<rparr>"]
    by blast
  have m: "map rid (rectangles (gesture \<lparr>px = 20, py = 20\<rparr> [\<lparr>px = 30, py = 30\<rparr>] 1001 (1/2) ?s))
     = [''rect-1000'', ''rect-1001'']"
    using gesture_rids[of ?s "\<lparr>px = 20, py = 20\<rparr>" "[]" "\<lparr>px = 30, py = 30\<rparr>" 1001 "1/2"]
    by (simp add: n)
  from d m show ?thesis by simp
qed

lemma same_time_same_id:
  "map rid (rectangles (gesture \<lparr>px = 20, py = 20\<rparr> [\<lparr>px = 30, py = 30\<rparr>] 1000 (1/2)
      (gesture \<lparr>px = 0, py = 0\<rparr> [\<lparr>px = 10, py = 10\<rparr>] 1000 (1/2)
         (initial\<lparr>isDrawing := True\<rparr>)))) = [''rect-1000'', ''rect-1000'']"
  by (simp add: gesture_def handleMouseUp_def handleMouseMove_def handleMouseDown_def initial_def
      finalRect_def toString10_def toString16_def toString_radix.simps digit_char_def)

section \<open>Auto-save\<close>

lemma payload_request: "payload (saveAnnotations_request tok c) = rectangles c"
  by (simp add: payload_def saveAnnotations_request_def split: option.splits)

lemma effect_result:
  assumes "timer_inv s"
  shows "autoSaveEffect (s\<lparr>ui := u\<rparr>) =
     (if autoSave u \<and> rectangles u \<noteq> []
      then s\<lparr>ui := u, timers := [(fresh s, clock s + 2000, u)], cleanup := Some (fresh s),
             fresh := Suc (fresh s)\<rparr>
      else s\<lparr>ui := u, timers := [], cleanup := None\<rparr>)"
proof (cases "cleanup s")
  case None
  with assms have t: "timers s = []"
    unfolding timer_inv_def by (cases "timers s") auto
  show ?thesis
    by (simp add: autoSaveEffect_def None t setTimeout_def Let_def)
next
  case (Some h)
  with assms have "\<forall>e \<in> set (timers s). fst e = h"
    unfolding timer_inv_def by auto
  then have f: "filter (\<lambda>(h', due, c). h' \<noteq> h) (timers s) = []"
    by (auto simp: filter_empty_conv)
  show ?thesis
    by (simp add: autoSaveEffect_def Some f setTimeout_def clearTimeout_def Let_def)
qed

lemma step_Mutate:
  assumes "timer_inv s"
  shows "step (Mutate f) s =
     (let u = (f (ui s))\<lparr>autoSave := autoSave (ui s)\<rparr>
      in if autoSave (ui s) \<and> rectangles (f (ui s)) \<noteq> []
         then s\<lparr>ui := u, timers := [(fresh s, clock s + 2000, u)], cleanup := Some (fresh s),
                fresh := Suc (fresh s)\<rparr>
         else s\<lparr>ui := u, timers := [], cleanup := None\<rparr>)"
  by (simp add: effect_result[OF assms] Let_def)

lemma step_CheckAutoSave:
  assumes "timer_inv s"
  shows "step (CheckAutoSave b) s =
     (if b = autoSave (ui s) then s
      else if b \<and> rectangles (ui s) \<noteq> []
         then s\<lparr>ui := (ui s)\<lparr>autoSave := b\<rparr>,
                timers := [(fresh s, clock s + 2000, (ui s)\<lparr>autoSave := b\<rparr>)],
                cleanup := Some (fresh s), fresh := Suc (fresh s)\<rparr>
         else s\<lparr>ui := (ui s)\<lparr>autoSave := b\<rparr>, timers := [], cleanup := None\<rparr>)"
  by (simp add: effect_result[OF assms])

lemma timer_inv_step:
  assumes "timer_inv s"
  shows "timer_inv (step e s)"
proof (cases e)
  case (Mutate f)
  show ?thesis
    unfolding Mutate step_Mutate[OF assms] by (simp add: timer_inv_def Let_def)
next
  case (Update f)
  with assms show ?thesis by (simp add: timer_inv_def)
next
  case (CheckAutoSave b)
  show ?thesis
    unfolding CheckAutoSave step_CheckAutoSave[OF assms]
    using assms by (simp add: timer_inv_def)
next
  case ClickSave
  with assms show ?thesis by (auto simp: timer_inv_def)
next
  case (Elapse d)
  have "length (filter (\<lambda>e. \<not> is_due (clock s + d) e) (timers s)) \<le> length (timers s)"
    by (rule length_filter_le)
  moreover have "length (timers s) \<le> 1" using assms by (simp add: timer_inv_def)
  ultimately have "length (filter (\<lambda>e. \<not> is_due (clock s + d) e) (timers s)) \<le> 1"
    by (rule le_trans)
  with assms Elapse show ?thesis by (auto simp: timer_inv_def)
qed

lemma timer_inv_mounted: "timer_inv (mounted tok)"
  by (simp add: timer_inv_def mounted_def)

lemma timer_inv_steps: "timer_inv s \<Longrightarrow> timer_inv (steps evs s)"
  unfolding steps_def by (induction evs arbitrary: s) (simp_all add: timer_inv_step)

lemma sort_key_short: "length xs \<le> 1 \<Longrightarrow> sort_key f xs = xs"
  by (cases xs) simp_all

lemma sent_inv_step:
  assumes "timer_inv s" and "sent_inv s"
  shows "sent_inv (step e s)"
proof (cases e)
  case (Mutate f)
  show ?thesis
    unfolding Mutate step_Mutate[OF assms(1)] using assms(2) by (simp add: sent_inv_def Let_def)
next
  case (Update f)
  with assms show ?thesis by (simp add: sent_inv_def)
next
  case (CheckAutoSave b)
  show ?thesis
    unfolding CheckAutoSave step_CheckAutoSave[OF assms(1)]
    using assms(2) by (simp add: sent_inv_def)
next
  case ClickSave
  with assms show ?thesis by (simp add: sent_inv_def payload_request)
next
  case (Elapse d)
  let ?due = "filter (is_due (clock s + d)) (timers s)"
  have "length ?due \<le> length (timers s)" by (rule length_filter_le)
  moreover have "length (timers s) \<le> 1" using assms(1) by (simp add: timer_inv_def)
  ultimately have "length ?due \<le> 1" by (rule le_trans)
  then have srt: "sort_key (\<lambda>e. fst (snd e)) ?due = ?due" by (rule sort_key_short)
  have "\<forall>e \<in> set ?due. rectangles (snd (snd e)) \<noteq> []"
    using assms(1) by (auto simp: timer_inv_def)
  then have "\<forall>x \<in> set (map (\<lambda>(h, due, c). (due, saveAnnotations_request (token s) c)) ?due).
      payload (snd x) \<noteq> []"
    by (auto simp: payload_request)
  with assms(2) Elapse show ?thesis
    by (auto simp: sent_inv_def srt)
qed

lemma invs_steps:
  "timer_inv s \<Longrightarrow> sent_inv s \<Longrightarrow> timer_inv (steps evs s) \<and> sent_inv (steps evs s)"
  unfolding steps_def
  by (induction evs arbitrary: s) (simp_all add: timer_inv_step sent_inv_step)

lemma sent_inv_mounted: "sent_inv (mounted tok)"
  by (simp add: sent_inv_def mounted_def)

lemma token_step: "token (step e s) = token s"
  by (cases e) (simp_all add: autoSaveEffect_def setTimeout_def clearTimeout_def Let_def
      split: option.splits)

lemma token_steps: "token (steps evs s) = token s"
  unfolding steps_def by (induction evs arbitrary: s) (simp_all add: token_step)

lemma quiet_idle:
  "timers s = [] \<Longrightarrow> list_all is_quiet evs \<Longrightarrow>
   sent (steps evs s) = sent s \<and> timers (steps evs s) = []"
proof (induction evs arbitrary: s)
  case Nil
  then show ?case by (simp add: steps_def)
next
  case (Cons e evs)
  from Cons.prems have q: "is_quiet e" and qs: "list_all is_quiet evs" by simp_all
  from q Cons.prems(1) have "sent (step e s) = sent s \<and> timers (step e s) = []"
    by (cases e) simp_all
  moreover from this have "sent (steps evs (step e s)) = sent (step e s) \<and>
      timers (steps evs (step e s)) = []"
    using Cons.IH[of "step e s"] qs by simp
  ultimately show ?case by (simp add: steps_def)
qed

lemma empty_idle:
  "timer_inv s \<Longrightarrow> rectangles (ui s) = [] \<Longrightarrow> list_all no_mutation evs \<Longrightarrow>
   sent (steps evs s) = sent s \<and> rectangles (ui (steps evs s)) = []"
proof (induction evs arbitrary: s)
  case Nil
  then show ?case by (simp add: steps_def)
next
  case (Cons e evs)
  from Cons.prems have q: "no_mutation e" and qs: "list_all no_mutation evs" by simp_all
  have t: "timers s = []"
    using Cons.prems(1,2) unfolding timer_inv_def by (cases "timers s") auto
  have "sent (step e s) = sent s \<and> rectangles (ui (step e s)) = []"
  proof (cases e)
    case (CheckAutoSave b)
    show ?thesis
      unfolding CheckAutoSave step_CheckAutoSave[OF Cons.prems(1)]
      using Cons.prems(2) by simp
  qed (use q t Cons.prems(2) in simp_all)
  moreover have "timer_inv (step e s)" using Cons.prems(1) by (rule timer_inv_step)
  ultimately have "sent (steps evs (step e s)) = sent s \<and>
      rectangles (ui (steps evs (step e s))) = []"
    using Cons.IH[of "step e s"] qs by simp
  then show ?case by (simp add: steps_def)
qed

lemma steps_Cons: "steps (e # evs) s = steps evs (step e s)"
  by (simp add: steps_def)

lemma quiet_armed:
  "timers s = [(h, due, c)] \<Longrightarrow> clock s < due \<Longrightarrow> list_all is_quiet evs \<Longrightarrow>
   sent (steps evs s) =
     (if due \<le> clock s + elapsed evs
      then sent s @ [(due, saveAnnotations_request (token s) c)] else sent s)"
proof (induction evs arbitrary: s)
  case Nil
  then show ?case by (simp add: steps_def)
next
  case (Cons e evs)
  from Cons.prems have q: "is_quiet e" and qs: "list_all is_quiet evs" by simp_all
  note fut = Cons.prems(2)
  from q show ?case
  proof (cases e)
    case (Elapse d)
    let ?s' = "step (Elapse d) s"
    show ?thesis
    proof (cases "due \<le> clock s + d")
      case True
      have t: "timers ?s' = []"
        and se: "sent ?s' = sent s @ [(due, saveAnnotations_request (token s) c)]"
        using Cons.prems(1) True by (simp_all add: is_due_def)
      have "sent (steps evs ?s') = sent ?s'"
        using quiet_idle[OF t qs] by (simp del: step.simps)
      then have "sent (steps (Elapse d # evs) s) =
          sent s @ [(due, saveAnnotations_request (token s) c)]"
        unfolding steps_Cons se .
      with True show ?thesis unfolding Elapse by simp
    next
      case False
      have t: "timers ?s' = [(h, due, c)]"
        and se: "sent ?s' = sent s" and cl: "clock ?s' = clock s + d"
        and tk: "token ?s' = token s"
        using Cons.prems(1) False by (simp_all add: is_due_def)
      have f': "clock ?s' < due" unfolding cl using False by simp
      have "sent (steps evs ?s') =
         (if due \<le> clock ?s' + elapsed evs
          then sent ?s' @ [(due, saveAnnotations_request (token ?s') c)]
          else sent ?s')"
        by (rule Cons.IH[OF t f' qs])
      then have "sent (steps (Elapse d # evs) s) =
         (if due \<le> clock s + d + elapsed evs
          then sent s @ [(due, saveAnnotations_request (token s) c)]
          else sent s)"
        unfolding steps_Cons se cl tk .
      then show ?thesis unfolding Elapse by (simp add: add.assoc)
    qed
  next
    case (Update g)
    let ?s' = "step (Update g) s"
    have t: "timers ?s' = [(h, due, c)]"
      and se: "sent ?s' = sent s" and cl: "clock ?s' = clock s"
      and tk: "token ?s' = token s"
      using Cons.prems(1) by simp_all
    have f': "clock ?s' < due" unfolding cl using fut .
    have "sent (steps evs ?s') =
         (if due \<le> clock ?s' + elapsed evs
          then sent ?s' @ [(due, saveAnnotations_request (token ?s') c)]
          else sent ?s')"
      by (rule Cons.IH[OF t f' qs])
    then have "sent (steps (Update g # evs) s) =
         (if due \<le> clock s + elapsed evs
          then sent s @ [(due, saveAnnotations_request (token s) c)]
          else sent s)"
      unfolding steps_Cons se cl tk .
    then show ?thesis unfolding Update by simp
  qed simp_all
qed

text \<open>
  C6: after any run of events from the mounted component at most one timer is pending,
  and switching auto-save off leaves none. With auto-save on, a handler that sets a
  non-empty rectangle list leaves exactly one timer, due 2000 ms after that moment,
  whatever was pending before; over any quiet period that follows (time passing, and
  updates of other cells) nothing is sent while less than 2000 ms have passed, and
  exactly one save has been sent, at the due time and for the list of that moment, once
  2000 ms or more have passed. The same holds for switching auto-save on over a
  non-empty list.
\<close>

theorem C6_debounce:
  fixes evs :: "'r event list" and tok :: "string option"
  defines "s \<equiv> steps evs (mounted tok)"
  shows
    "length (timers s) \<le> 1 \<and>
     timers (step (CheckAutoSave False) s) = [] \<and>
     (autoSave (ui s) \<and> rectangles (f (ui s)) \<noteq> [] \<and> list_all is_quiet later \<longrightarrow>
        map (\<lambda>e. fst (snd e)) (timers (step (Mutate f) s)) = [clock s + 2000] \<and>
        sent (steps later (step (Mutate f) s)) =
          (if 2000 \<le> elapsed later
           then sent s @ [(clock s + 2000,
                           saveAnnotations_request tok (ui (step (Mutate f) s)))]
           else sent s)) \<and>
     (\<not> autoSave (ui s) \<and> rectangles (ui s) \<noteq> [] \<and> list_all is_quiet later \<longrightarrow>
        map (\<lambda>e. fst (snd e)) (timers (step (CheckAutoSave True) s)) = [clock s + 2000] \<and>
        sent (steps later (step (CheckAutoSave True) s)) =
          (if 2000 \<le> elapsed later
           then sent s @ [(clock s + 2000,
                           saveAnnotations_request tok (ui (step (CheckAutoSave True) s)))]
           else sent s))"
proof -
  have inv: "timer_inv s"
    unfolding s_def using timer_inv_mounted by (rule timer_inv_steps)
  have tok: "token s = tok"
    unfolding s_def by (simp add: token_steps mounted_def)
  have one: "length (timers s) \<le> 1"
    using inv by (simp add: timer_inv_def)
  have off: "timers (step (CheckAutoSave False) s) = []"
  proof (cases "autoSave (ui s)")
    case True
    then show ?thesis unfolding step_CheckAutoSave[OF inv] by simp
  next
    case False
    with inv have "timers s = []"
      unfolding timer_inv_def by (cases "timers s") auto
    with False show ?thesis by simp
  qed
  have armed: "map (\<lambda>e. fst (snd e)) (timers s') = [clock s + 2000] \<and>
        sent (steps later s') =
          (if 2000 \<le> elapsed later
           then sent s @ [(clock s + 2000, saveAnnotations_request tok (ui s'))]
           else sent s)"
    if s': "s' = s\<lparr>ui := u, timers := [(fresh s, clock s + 2000, u)],
                cleanup := Some (fresh s), fresh := Suc (fresh s)\<rparr>"
      and q: "list_all is_quiet later"
    for s' u
  proof -
    have t: "timers s' = [(fresh s, clock s + 2000, u)]" unfolding s' by simp
    have c: "clock s' = clock s" "sent s' = sent s" "token s' = tok" "ui s' = u"
      unfolding s' by (simp_all add: tok)
    have f: "clock s' < clock s + 2000" unfolding c by simp
    have "sent (steps later s') =
        (if clock s + 2000 \<le> clock s' + elapsed later
         then sent s' @ [(clock s + 2000, saveAnnotations_request (token s') u)]
         else sent s')"
      by (rule quiet_armed[OF t f q])
    then have "sent (steps later s') =
        (if 2000 \<le> elapsed later
         then sent s @ [(clock s + 2000, saveAnnotations_request tok (ui s'))]
         else sent s)"
      unfolding c by simp
    with t show ?thesis by simp
  qed
  have mutate: "map (\<lambda>e. fst (snd e)) (timers (step (Mutate f) s)) = [clock s + 2000] \<and>
        sent (steps later (step (Mutate f) s)) =
          (if 2000 \<le> elapsed later
           then sent s @ [(clock s + 2000,
                           saveAnnotations_request tok (ui (step (Mutate f) s)))]
           else sent s)"
    if a: "autoSave (ui s) \<and> rectangles (f (ui s)) \<noteq> [] \<and> list_all is_quiet later"
  proof -
    have e: "step (Mutate f) s =
        s\<lparr>ui := (f (ui s))\<lparr>autoSave := autoSave (ui s)\<rparr>,
          timers := [(fresh s, clock s + 2000, (f (ui s))\<lparr>autoSave := autoSave (ui s)\<rparr>)],
          cleanup := Some (fresh s), fresh := Suc (fresh s)\<rparr>"
      unfolding step_Mutate[OF inv] using a by (simp add: Let_def)
    from a have q: "list_all is_quiet later" by simp
    show ?thesis by (rule armed[OF e q])
  qed
  have check: "map (\<lambda>e. fst (snd e)) (timers (step (CheckAutoSave True) s)) = [clock s + 2000] \<and>
        sent (steps later (step (CheckAutoSave True) s)) =
          (if 2000 \<le> elapsed later
           then sent s @ [(clock s + 2000,
                           saveAnnotations_request tok (ui (step (CheckAutoSave True) s)))]
           else sent s)"
    if a: "\<not> autoSave (ui s) \<and> rectangles (ui s) \<noteq> [] \<and> list_all is_quiet later"
  proof -
    have e: "step (CheckAutoSave True) s =
        s\<lparr>ui := (ui s)\<lparr>autoSave := True\<rparr>,
          timers := [(fresh s, clock s + 2000, (ui s)\<lparr>autoSave := True\<rparr>)],
          cleanup := Some (fresh s), fresh := Suc (fresh s)\<rparr>"
      unfolding step_CheckAutoSave[OF inv] using a by simp
    from a have q: "list_all is_quiet later" by simp
    show ?thesis by (rule armed[OF e q])
  qed
  from one off mutate check show ?thesis by blast
qed

theorem C6_debounce_witness:
  "sent (steps [Elapse 1000, Update (perform (Click 0)), Elapse 999]
      (step (Mutate handleMouseUp) (steps
       [Update (fetchAnnotations (Some [])), Update (perform ToggleDrawing), CheckAutoSave True,
        Update (handleMouseDown True \<lparr>px = 0, py = 0\<rparr> 1000 (1/2)),
        Update (handleMouseMove \<lparr>px = 10, py = 10\<rparr>),
        Mutate handleMouseUp,
        Elapse 1900,
        Update (handleMouseDown True \<lparr>px = 20, py = 20\<rparr> 2900 (1/2)),
        Update (handleMouseMove \<lparr>px = 30, py = 30\<rparr>)]
       (mounted None)))) = [] \<and>
   sent (steps [Elapse 1000, Update (perform (Click 0)), Elapse 1000, Elapse 7]
      (step (Mutate handleMouseUp) (steps
       [Update (fetchAnnotations (Some [])), Update (perform ToggleDrawing), CheckAutoSave True,
        Update (handleMouseDown True \<lparr>px = 0, py = 0\<rparr> 1000 (1/2)),
        Update (handleMouseMove \<lparr>px = 10, py = 10\<rparr>),
        Mutate handleMouseUp,
        Elapse 1900,
        Update (handleMouseDown True \<lparr>px = 20, py = 20\<rparr> 2900 (1/2)),
        Update (handleMouseMove \<lparr>px = 30, py = 30\<rparr>)]
       (mounted None)))) =
     [(3900, Post None
        [\<lparr>rid = ''rect-1000'', xpos = 0, ypos = 0, width = 10, height = 10, color = ''#7fffff''\<rparr>,
         \<lparr>rid = ''rect-2900'', xpos = 20, ypos = 20, width = 10, height = 10, color = ''#7fffff''\<rparr>])]"
proof -
  let ?evs = "[Update (fetchAnnotations (Some [])), Update (perform ToggleDrawing), CheckAutoSave True,
        Update (handleMouseDown True \<lparr>px = 0, py = 0\<rparr> 1000 (1/2)),
        Update (handleMouseMove \<lparr>px = 10, py = 10\<rparr>),
        Mutate handleMouseUp,
        Elapse 1900,
        Update (handleMouseDown True \<lparr>px = 20, py = 20\<rparr> 2900 (1/2)),
        Update (handleMouseMove \<lparr>px = 30, py = 30\<rparr>)]"
  let ?s = "steps ?evs (mounted None)"
  let ?short = "[Elapse 1000, Update (perform (Click 0)), Elapse 999] :: rect event list"
  let ?long = "[Elapse 1000, Update (perform (Click 0)), Elapse 1000, Elapse 7] :: rect event list"
  have e: "?s =
    \<lparr>ui = \<lparr>rectangles = [\<lparr>rid = ''rect-1000'', xpos = 0, ypos = 0, width = 10, height = 10, color = ''#7fffff''\<rparr>],
            selectedId = None, isDrawing = True, startPoint = Some \<lparr>px = 20, py = 20\<rparr>,
            currentRect = Some \<lparr>rid = ''rect-2900'', xpos = 20, ypos = 20, width = 10, height = 10, color = ''#7fffff''\<rparr>,
            loading = False, error = [], annotationId = None, autoSave = True\<rparr>,
      token = None, clock = 1900,
      timers = [(0, 2000,
         \<lparr>rectangles = [\<lparr>rid = ''rect-1000'', xpos = 0, ypos = 0, width = 10, height = 10, color = ''#7fffff''\<rparr>],
           selectedId = None, isDrawing = True, startPoint = None, currentRect = None,
           loading = False, error = [], annotationId = None, autoSave = True\<rparr>)],
      cleanup = Some 0, fresh = 1, sent = []\<rparr>"
    by (simp add: steps_def mounted_def initial_def autoSaveEffect_def setTimeout_def
        clearTimeout_def fetchAnnotations_def handleMouseDown_def handleMouseMove_def
        handleMouseUp_def finalRect_def Let_def toString10_def toString16_def
        toString_radix.simps digit_char_def is_due_def)
  have h1: "autoSave (ui ?s) \<and> rectangles (handleMouseUp (ui ?s)) \<noteq> [] \<and> list_all is_quiet ?short"
    unfolding e by (simp add: handleMouseUp_def)
  have h2: "autoSave (ui ?s) \<and> rectangles (handleMouseUp (ui ?s)) \<noteq> [] \<and> list_all is_quiet ?long"
    unfolding e by (simp add: handleMouseUp_def)
  have u: "ui (step (Mutate handleMouseUp) ?s) =
     \<lparr>rectangles = [\<lparr>rid = ''rect-1000'', xpos = 0, ypos = 0, width = 10, height = 10, color = ''#7fffff''\<rparr>, \<lparr>rid = ''rect-2900'', xpos = 20, ypos = 20, width = 10, height = 10, color = ''#7fffff''\<rparr>],
       selectedId = None, isDrawing = True, startPoint = None, currentRect = None,
       loading = False, error = [], annotationId = None, autoSave = True\<rparr>"
    unfolding e
    by (simp add: autoSaveEffect_def setTimeout_def clearTimeout_def handleMouseUp_def
        finalRect_def Let_def)
  have c: "clock ?s = 1900" "sent ?s = []" unfolding e by simp_all
  have early: "sent (steps ?short (step (Mutate handleMouseUp) ?s)) = sent ?s"
    using h1 C6_debounce [of ?evs None handleMouseUp ?short] by (simp del: step.simps)
  have late: "sent (steps ?long (step (Mutate handleMouseUp) ?s)) =
      sent ?s @ [(clock ?s + 2000,
           saveAnnotations_request None (ui (step (Mutate handleMouseUp) ?s)))]"
    using h2 C6_debounce [of ?evs None handleMouseUp ?long] by (simp del: step.simps)
  show ?thesis
    unfolding early late u c by (simp add: saveAnnotations_request_def)
qed

text \<open>
  C10: after any run of events from the mounted component every save sent so far carries
  a non-empty rectangle list, and so does the callback of every pending timer.
  \<open>clearAll\<close> leaves an empty list and no timer. While the list is empty no timer is
  pending, the save button does nothing, and no run of events without a new rectangle
  list sends anything: what was sent last stays the last.
\<close>

theorem C10_no_empty_save:
  fixes evs :: "'r event list" and tok :: "string option"
  defines "s \<equiv> steps evs (mounted tok)"
  shows
    "(\<forall>e \<in> set (sent s). payload (snd e) \<noteq> []) \<and>
     (\<forall>e \<in> set (timers s). rectangles (snd (snd e)) \<noteq> []) \<and>
     rectangles (ui (step (Mutate clearAll) s)) = [] \<and>
     timers (step (Mutate clearAll) s) = [] \<and>
     (rectangles (ui s) = [] \<longrightarrow>
        timers s = [] \<and> step ClickSave s = s \<and>
        (list_all no_mutation later \<longrightarrow> sent (steps later s) = sent s))"
proof -
  have inv: "timer_inv s" and sinv: "sent_inv s"
    unfolding s_def using invs_steps[OF timer_inv_mounted sent_inv_mounted] by blast+
  have a: "\<forall>e \<in> set (sent s). payload (snd e) \<noteq> []"
    using sinv by (simp add: sent_inv_def)
  have b: "\<forall>e \<in> set (timers s). rectangles (snd (snd e)) \<noteq> []"
    using inv by (auto simp: timer_inv_def)
  have c: "rectangles (ui (step (Mutate clearAll) s)) = []"
    "timers (step (Mutate clearAll) s) = []"
    unfolding step_Mutate[OF inv] by (simp_all add: clearAll_def Let_def)
  have d: "timers s = [] \<and> step ClickSave s = s \<and>
        (list_all no_mutation later \<longrightarrow> sent (steps later s) = sent s)"
    if e: "rectangles (ui s) = []"
  proof -
    have "timers s = []"
      using inv e unfolding timer_inv_def by (cases "timers s") auto
    moreover have "step ClickSave s = s" using e by simp
    moreover have "sent (steps later s) = sent s" if "list_all no_mutation later"
      using empty_idle[OF inv e that] by simp
    ultimately show ?thesis by simp
  qed
  from a b c d show ?thesis by blast
qed

theorem C10_no_empty_save_witness:
  "sent (steps [ClickSave, Elapse 5000, CheckAutoSave False, CheckAutoSave True, Elapse 5000]
      (steps
       [Update (fetchAnnotations (Some [])), Update (perform ToggleDrawing), CheckAutoSave True,
        Update (handleMouseDown True \<lparr>px = 0, py = 0\<rparr> 1000 (1/2)),
        Update (handleMouseMove \<lparr>px = 10, py = 10\<rparr>),
        Mutate handleMouseUp,
        Elapse 2000,
        Mutate clearAll]
       (mounted None))) =
     [(2000, Post None [\<lparr>rid = ''rect-1000'', xpos = 0, ypos = 0, width = 10, height = 10, color = ''#7fffff''\<rparr>])] \<and>
   rectangles (ui (steps
       [Update (fetchAnnotations (Some [])), Update (perform ToggleDrawing), CheckAutoSave True,
        Update (handleMouseDown True \<lparr>px = 0, py = 0\<rparr> 1000 (1/2)),
        Update (handleMouseMove \<lparr>px = 10, py = 10\<rparr>),
        Mutate handleMouseUp,
        Elapse 2000,
        Mutate clearAll]
       (mounted None))) = []"
proof -
  let ?evs = "[Update (fetchAnnotations (Some [])), Update (perform ToggleDrawing), CheckAutoSave True,
        Update (handleMouseDown True \<lparr>px = 0, py = 0\<rparr> 1000 (1/2)),
        Update (handleMouseMove \<lparr>px = 10, py = 10\<rparr>),
        Mutate handleMouseUp,
        Elapse 2000,
        Mutate clearAll]"
  let ?later = "[ClickSave, Elapse 5000, CheckAutoSave False, CheckAutoSave True, Elapse 5000] :: rect event list"
  let ?s = "steps ?evs (mounted None)"
  have e: "?s =
    \<lparr>ui = \<lparr>rectangles = [],
            selectedId = None, isDrawing = True, startPoint = None, currentRect = None,
            loading = False, error = [], annotationId = None, autoSave = True\<rparr>,
      token = None, clock = 2000, timers = [], cleanup = None, fresh = 1,
      sent = [(2000, Post None [\<lparr>rid = ''rect-1000'', xpos = 0, ypos = 0, width = 10, height = 10, color = ''#7fffff''\<rparr>])]\<rparr>"
    by (simp add: steps_def mounted_def initial_def autoSaveEffect_def setTimeout_def
        clearTimeout_def fetchAnnotations_def handleMouseDown_def handleMouseMove_def
        handleMouseUp_def finalRect_def clearAll_def Let_def toString10_def toString16_def
        toString_radix.simps digit_char_def is_due_def saveAnnotations_request_def)
  have h: "rectangles (ui ?s) = []" unfolding e by simp
  have q: "list_all no_mutation ?later" by simp
  have "sent (steps ?later ?s) = sent ?s"
    using h q C10_no_empty_save [of ?evs None ?later] by blast
  also have "\<dots> = [(2000, Post None [\<lparr>rid = ''rect-1000'', xpos = 0, ypos = 0, width = 10, height = 10, color = ''#7fffff''\<rparr>])]" unfolding e by simp
  finally show ?thesis using h by blast
qed

subsection \<open>A save by a timer set before the id arrived\<close>

text \<open>
  C7 fails for a save started by the auto-save timer: the callback of the timer is the
  \<open>saveAnnotations\<close> of the render in which the effect ran, and reads the
  \<open>annotationId\<close> of that render. When a handler sets a non-empty rectangle list while
  auto-save is on and the state has no id yet, and then an earlier POST resolves with the
  id \<open>j\<close>, the state has the id \<open>j\<close>, and 2000 ms after the edit the timer sends a POST
  all the same, not a PUT for \<open>j\<close>. In the witness a first rectangle is drawn at 0 ms, the
  timer sends the first POST at 2000 ms, a second rectangle is drawn at 2100 ms, the first
  POST resolves with \<open>A1\<close>, and at 4100 ms a second POST is sent.
\<close>

theorem C7_stale_timer_save:
  fixes evs :: "'r event list" and tok :: "string option"
    and f :: "'r canvas \<Rightarrow> 'r canvas" and d :: nat and data :: "'r list" and j :: string
  defines "s \<equiv> steps evs (mounted tok)"
  defines "s1 \<equiv> step (Update (saveAnnotations_settled (Post tok data) (Resolved j)))
                    (step (Mutate f) s)"
  shows "autoSave (ui s) \<and> rectangles (f (ui s)) \<noteq> [] \<and> \<not> truthy (annotationId (f (ui s))) \<and>
         2000 \<le> d \<longrightarrow>
           annotationId (ui s1) = Some j \<and>
           sent (step (Elapse d) s1) = sent s @ [(clock s + 2000, Post tok (rectangles (f (ui s))))]"
proof
  assume a: "autoSave (ui s) \<and> rectangles (f (ui s)) \<noteq> [] \<and> \<not> truthy (annotationId (f (ui s))) \<and>
         2000 \<le> d"
  have inv: "timer_inv s"
    unfolding s_def using timer_inv_mounted by (rule timer_inv_steps)
  have tok: "token s = tok"
    unfolding s_def by (simp add: token_steps mounted_def)
  let ?u = "(f (ui s))\<lparr>autoSave := autoSave (ui s)\<rparr>"
  let ?m = "step (Mutate f) s"
  have m: "?m = s\<lparr>ui := ?u, timers := [(fresh s, clock s + 2000, ?u)],
                cleanup := Some (fresh s), fresh := Suc (fresh s)\<rparr>"
    unfolding step_Mutate[OF inv] using a by (simp add: Let_def)
  have s1: "s1 = s\<lparr>ui := ?u\<lparr>annotationId := Some j, error := []\<rparr>,
                timers := [(fresh s, clock s + 2000, ?u)],
                cleanup := Some (fresh s), fresh := Suc (fresh s)\<rparr>"
    unfolding s1_def m by (simp add: saveAnnotations_settled_def)
  have req: "saveAnnotations_request tok (f (ui s)) = Post tok (rectangles (f (ui s)))"
    using a by (simp add: saveAnnotations_request_def truthy_def split: option.splits)
  have req': "saveAnnotations_request tok (c\<lparr>autoSave := b\<rparr>) = saveAnnotations_request tok c"
    for b and c :: "'r canvas"
    by (simp add: saveAnnotations_request_def split: option.splits)
  have "annotationId (ui s1) = Some j" unfolding s1 by simp
  moreover have "sent (step (Elapse d) s1) =
      sent s @ [(clock s + 2000, Post tok (rectangles (f (ui s))))]"
    unfolding s1 using a by (simp add: is_due_def tok req req')
  ultimately show "annotationId (ui s1) = Some j \<and>
           sent (step (Elapse d) s1) = sent s @ [(clock s + 2000, Post tok (rectangles (f (ui s))))]"
    by simp
qed

theorem C7_stale_timer_save_witness:
  "annotationId (ui (step (Update (saveAnnotations_settled (Post None [\<lparr>rid = ''rect-1000'', xpos = 0, ypos = 0, width = 10, height = 10, color = ''#7fffff''\<rparr>]) (Resolved ''A1'')))
      (step (Mutate handleMouseUp) (steps
        [Update (fetchAnnotations (Some [])), Update (perform ToggleDrawing), CheckAutoSave True,
        Update (handleMouseDown True \<lparr>px = 0, py = 0\<rparr> 1000 (1/2)),
        Update (handleMouseMove \<lparr>px = 10, py = 10\<rparr>),
        Mutate handleMouseUp,
        Elapse 2000,
        Update (handleMouseDown True \<lparr>px = 20, py = 20\<rparr> 3100 (1/2)),
        Update (handleMouseMove \<lparr>px = 30, py = 30\<rparr>),
        Elapse 100]
        (mounted None))))) = Some ''A1'' \<and>
   sent (step (Elapse 2000)
     (step (Update (saveAnnotations_settled (Post None [\<lparr>rid = ''rect-1000'', xpos = 0, ypos = 0, width = 10, height = 10, color = ''#7fffff''\<rparr>]) (Resolved ''A1'')))
      (step (Mutate handleMouseUp) (steps
        [Update (fetchAnnotations (Some [])), Update (perform ToggleDrawing), CheckAutoSave True,
        Update (handleMouseDown True \<lparr>px = 0, py = 0\<rparr> 1000 (1/2)),
        Update (handleMouseMove \<lparr>px = 10, py = 10\<rparr>),
        Mutate handleMouseUp,
        Elapse 2000,
        Update (handleMouseDown True \<lparr>px = 20, py = 20\<rparr> 3100 (1/2)),
        Update (handleMouseMove \<lparr>px = 30, py = 30\<rparr>),
        Elapse 100]
        (mounted None))))) =
     [(2000, Post None [\<lparr>rid = ''rect-1000'', xpos = 0, ypos = 0, width = 10, height = 10, color = ''#7fffff''\<rparr>]),
      (4100, Post None [\<lparr>rid = ''rect-1000'', xpos = 0, ypos = 0, width = 10, height = 10, color = ''#7fffff''\<rparr>,
         \<lparr>rid = ''rect-3100'', xpos = 20, ypos = 20, width = 10, height = 10, color = ''#7fffff''\<rparr>])]"
proof -
  let ?evs = "[Update (fetchAnnotations (Some [])), Update (perform ToggleDrawing), CheckAutoSave True,
        Update (handleMouseDown True \<lparr>px = 0, py = 0\<rparr> 1000 (1/2)),
        Update (handleMouseMove \<lparr>px = 10, py = 10\<rparr>),
        Mutate handleMouseUp,
        Elapse 2000,
        Update (handleMouseDown True \<lparr>px = 20, py = 20\<rparr> 3100 (1/2)),
        Update (handleMouseMove \<lparr>px = 30, py = 30\<rparr>),
        Elapse 100]"
  let ?s = "steps ?evs (mounted None)"
  have e: "?s =
    \<lparr>ui = \<lparr>rectangles = [\<lparr>rid = ''rect-1000'', xpos = 0, ypos = 0, width = 10, height = 10, color = ''#7fffff''\<rparr>],
            selectedId = None, isDrawing = True, startPoint = Some \<lparr>px = 20, py = 20\<rparr>,
            currentRect = Some \<lparr>rid = ''rect-3100'', xpos = 20, ypos = 20, width = 10, height = 10, color = ''#7fffff''\<rparr>,
            loading = False, error = [], annotationId = None, autoSave = True\<rparr>,
      token = None, clock = 2100, timers = [], cleanup = Some 0, fresh = 1,
      sent = [(2000, Post None [\<lparr>rid = ''rect-1000'', xpos = 0, ypos = 0, width = 10, height = 10, color = ''#7fffff''\<rparr>])]\<rparr>"
    by (simp add: steps_def mounted_def initial_def autoSaveEffect_def setTimeout_def
        clearTimeout_def fetchAnnotations_def handleMouseDown_def handleMouseMove_def
        handleMouseUp_def finalRect_def Let_def toString10_def toString16_def
        toString_radix.simps digit_char_def is_due_def saveAnnotations_request_def)
  have h: "autoSave (ui ?s) \<and> rectangles (handleMouseUp (ui ?s)) \<noteq> [] \<and>
      \<not> truthy (annotationId (handleMouseUp (ui ?s))) \<and> (2000::nat) \<le> 2000"
    unfolding e by (simp add: handleMouseUp_def truthy_def)
  have r: "rectangles (handleMouseUp (ui ?s)) = [\<lparr>rid = ''rect-1000'', xpos = 0, ypos = 0, width = 10, height = 10, color = ''#7fffff''\<rparr>,
         \<lparr>rid = ''rect-3100'', xpos = 20, ypos = 20, width = 10, height = 10, color = ''#7fffff''\<rparr>]"
    unfolding e by (simp add: handleMouseUp_def finalRect_def)
  have c: "clock ?s = 2100" "sent ?s = [(2000, Post None [\<lparr>rid = ''rect-1000'', xpos = 0, ypos = 0, width = 10, height = 10, color = ''#7fffff''\<rparr>])]"
    unfolding e by simp_all
  show ?thesis
    using h C7_stale_timer_save [of ?evs None handleMouseUp 2000 "[\<lparr>rid = ''rect-1000'', xpos = 0, ypos = 0, width = 10, height = 10, color = ''#7fffff''\<rparr>]" "''A1''"]
    unfolding r c by (simp del: step.simps)
qed

end
